theory Spec2Isabelle
  imports Main
begin

section \<open>JavaScript values of the parsed device response\<close>

text \<open>
  \<open>fetchVehiclesFromCamera\<close> works on the object that \<open>xml2js\<close> builds from the
  response body. Only four kinds of value occur there: \<open>undefined\<close>/\<open>null\<close>
  (one constructor, both are falsy and both throw on a property read), strings, arrays
  and plain objects (an association list of own properties, first binding wins).
\<close>

datatype jsval =
    JUndefined
  | JString string
  | JArray "jsval list"
  | JObject "(string \<times> jsval) list"

datatype js_error = TypeError

text \<open>JavaScript truthiness, as used by \<open>result.Plates && result.Plates.Plate\<close>.\<close>

fun truthy :: "jsval \<Rightarrow> bool" where
  "truthy JUndefined = False"
| "truthy (JString s) = (s \<noteq> [])"
| "truthy (JArray xs) = True"
| "truthy (JObject kvs) = True"

text \<open>
  The property read \<open>x.name\<close> for the names the program uses (\<open>Plates\<close>, \<open>Plate\<close>,
  \<open>captureTime\<close>, \<open>plateNumber\<close>, \<open>picName\<close>, \<open>country\<close>, \<open>direction\<close>): it throws
  on \<open>undefined\<close>, and a string or an array has no such property.
\<close>

fun getProp :: "string \<Rightarrow> jsval \<Rightarrow> js_error + jsval" where
  "getProp k JUndefined = Inl TypeError"
| "getProp k (JString s) = Inr JUndefined"
| "getProp k (JArray xs) = Inr JUndefined"
| "getProp k (JObject kvs) = Inr (case map_of kvs k of None \<Rightarrow> JUndefined | Some v \<Rightarrow> v)"

text \<open>The indexed read \<open>x[0]\<close>.\<close>

fun index0 :: "jsval \<Rightarrow> js_error + jsval" where
  "index0 JUndefined = Inl TypeError"
| "index0 (JString s) = Inr (case s of [] \<Rightarrow> JUndefined | c # _ \<Rightarrow> JString [c])"
| "index0 (JArray xs) = Inr (case xs of [] \<Rightarrow> JUndefined | x # _ \<Rightarrow> x)"
| "index0 (JObject kvs) = Inr (case map_of kvs ''0'' of None \<Rightarrow> JUndefined | Some v \<Rightarrow> v)"

text \<open>\<open>plate.name[0]\<close>: the first value of a child element of a detection element.\<close>

definition field0 :: "string \<Rightarrow> jsval \<Rightarrow> js_error + jsval" where
  "field0 k plate = (case getProp k plate of Inl e \<Rightarrow> Inl e | Inr a \<Rightarrow> index0 a)"

text \<open>
  \<open>s.substring(a, b)\<close> for \<open>a \<le> b\<close>: both indices are clamped to the length of the
  string, so the call never throws on a string and may return fewer than \<open>b - a\<close>
  characters.
\<close>

definition substring :: "nat \<Rightarrow> nat \<Rightarrow> string \<Rightarrow> string" where
  "substring a b s = take (b - a) (drop a s)"

section \<open>Decoding the capture time\<close>

text \<open>
  The six fields read off the device string, and the text handed to \<open>moment.tz\<close>:
  the template literal
  \<^verbatim>\<open>${year}-${month}-${day}T${hour}:${minute}:${second}\<close>.
\<close>

definition captureTimeText :: "string \<Rightarrow> string" where
  "captureTimeText captureTimeStr =
     (let year = substring 0 4 captureTimeStr;
          month = substring 4 6 captureTimeStr;
          day = substring 6 8 captureTimeStr;
          hour = substring 9 11 captureTimeStr;
          minute = substring 11 13 captureTimeStr;
          second = substring 13 15 captureTimeStr
      in year @ ''-'' @ month @ ''-'' @ day @ ''T'' @ hour @ '':'' @ minute @ '':'' @ second)"

text \<open>A wall-clock reading: calendar date and time of day, with no zone attached.\<close>

record wallclock =
  wYear :: nat
  wMonth :: nat
  wDay :: nat
  wHour :: nat
  wMinute :: nat
  wSecond :: nat

definition isDigit :: "char \<Rightarrow> bool" where
  "isDigit c = (c \<in> set ''0123456789'')"

definition digitsToNat :: "string \<Rightarrow> nat" where
  "digitsToNat s = foldl (\<lambda>n c. 10 * n + (of_char c - 48)) 0 s"

text \<open>
  The ISO 8601 reading \<open>moment\<close> gives to a text of the shape the template produces.
  The separators come from the template, so the text matches the extended ISO format
  exactly when the year has four digits and each other field has two.
\<close>

definition isoLocal :: "string \<Rightarrow> wallclock option" where
  "isoLocal text =
     (if length text = 19
         \<and> list_all isDigit (substring 0 4 text) \<and> text ! 4 = CHR ''-''
         \<and> list_all isDigit (substring 5 7 text) \<and> text ! 7 = CHR ''-''
         \<and> list_all isDigit (substring 8 10 text) \<and> text ! 10 = CHR ''T''
         \<and> list_all isDigit (substring 11 13 text) \<and> text ! 13 = CHR '':''
         \<and> list_all isDigit (substring 14 16 text) \<and> text ! 16 = CHR '':''
         \<and> list_all isDigit (substring 17 19 text)
      then Some \<lparr> wYear = digitsToNat (substring 0 4 text),
                  wMonth = digitsToNat (substring 5 7 text),
                  wDay = digitsToNat (substring 8 10 text),
                  wHour = digitsToNat (substring 11 13 text),
                  wMinute = digitsToNat (substring 14 16 text),
                  wSecond = digitsToNat (substring 17 19 text) \<rparr>
      else None)"

definition daysInMonth :: "nat \<Rightarrow> nat \<Rightarrow> nat" where
  "daysInMonth y m =
     (if m = 2 then (if (y mod 4 = 0 \<and> y mod 100 \<noteq> 0) \<or> y mod 400 = 0 then 29 else 28)
      else if m = 4 \<or> m = 6 \<or> m = 9 \<or> m = 11 then 30 else 31)"

text \<open>
  The range check \<open>moment\<close> applies to parsed fields. \<open>24:00:00\<close> is accepted and
  stands for the start of the next day.
\<close>

definition validWallclock :: "wallclock \<Rightarrow> bool" where
  "validWallclock w =
     (1 \<le> wMonth w \<and> wMonth w \<le> 12
      \<and> 1 \<le> wDay w \<and> wDay w \<le> daysInMonth (wYear w) (wMonth w)
      \<and> (wHour w < 24 \<or> (wHour w = 24 \<and> wMinute w = 0 \<and> wSecond w = 0))
      \<and> wMinute w \<le> 59 \<and> wSecond w \<le> 59)"

text \<open>
  A JavaScript \<open>Date\<close> is a time value in milliseconds since the epoch, or the
  Invalid Date (\<open>None\<close>).

  \<open>moment.tz(text, 'Asia/Jerusalem').toDate()\<close>. Two parts of it are data and code
  outside this program and are parameters: \<open>israel\<close>, the time-zone table, maps a
  wall-clock reading of Asia/Jerusalem to its instant; \<open>legacy\<close> is the engine's own
  \<open>Date\<close> parser, to which \<open>moment\<close> hands any text that is not ISO 8601.
\<close>

type_synonym jsdate = "int option"

definition momentTz :: "(wallclock \<Rightarrow> int) \<Rightarrow> (string \<Rightarrow> jsdate) \<Rightarrow> string \<Rightarrow> jsdate" where
  "momentTz israel legacy text =
     (case isoLocal text of
        None \<Rightarrow> legacy text
      | Some w \<Rightarrow> if validWallclock w then Some (israel w) else None)"

text \<open>
  The capture time of one detection element, from the device string to the \<open>Date\<close>
  stored in the event.
\<close>

definition decodeCaptureTime :: "(wallclock \<Rightarrow> int) \<Rightarrow> (string \<Rightarrow> jsdate) \<Rightarrow> string \<Rightarrow> jsdate" where
  "decodeCaptureTime israel legacy captureTimeStr =
     momentTz israel legacy (captureTimeText captureTimeStr)"

section \<open>Decoding the detection elements\<close>

text \<open>The object pushed onto \<open>vehicles\<close> for one detection element.\<close>

record vehicle =
  captureTime :: jsdate
  plateNumber :: jsval
  picName :: jsval
  country :: jsval
  direction :: jsval

text \<open>
  The body of the \<open>for (const plate of plates)\<close> loop. A read of an absent child
  throws, and so does \<open>substring\<close> on a capture time that is not a string; a string
  of any content and length is accepted and handed on to \<open>moment\<close>.
\<close>

definition decodePlate ::
  "(wallclock \<Rightarrow> int) \<Rightarrow> (string \<Rightarrow> jsdate) \<Rightarrow> jsval \<Rightarrow> js_error + vehicle" where
  "decodePlate israel legacy plate =
     (case field0 ''captureTime'' plate of
        Inl e \<Rightarrow> Inl e
      | Inr captureTimeStr \<Rightarrow>
          (case captureTimeStr of
             JString s \<Rightarrow>
               (case field0 ''plateNumber'' plate of
                  Inl e \<Rightarrow> Inl e
                | Inr pn \<Rightarrow>
                    (case field0 ''picName'' plate of
                       Inl e \<Rightarrow> Inl e
                     | Inr pic \<Rightarrow>
                         (case field0 ''country'' plate of
                            Inl e \<Rightarrow> Inl e
                          | Inr co \<Rightarrow>
                              (case field0 ''direction'' plate of
                                 Inl e \<Rightarrow> Inl e
                               | Inr di \<Rightarrow>
                                   Inr \<lparr> captureTime = decodeCaptureTime israel legacy s,
                                         plateNumber = pn, picName = pic,
                                         country = co, direction = di \<rparr>))))
           | _ \<Rightarrow> Inl TypeError))"

text \<open>
  The loop itself. It has no handler of its own: the first element whose decoding
  throws ends it, and what was pushed before stays in \<open>vehicles\<close>.
\<close>

fun decodeLoop ::
  "(wallclock \<Rightarrow> int) \<Rightarrow> (string \<Rightarrow> jsdate) \<Rightarrow> vehicle list \<Rightarrow> jsval list
     \<Rightarrow> vehicle list \<times> js_error option" where
  "decodeLoop israel legacy vehicles [] = (vehicles, None)"
| "decodeLoop israel legacy vehicles (plate # plates) =
     (case decodePlate israel legacy plate of
        Inl e \<Rightarrow> (vehicles, Some e)
      | Inr v \<Rightarrow> decodeLoop israel legacy (vehicles @ [v]) plates)"

text \<open>
  The sequence the loop runs over:
  \<^verbatim>\<open>if (result.Plates && result.Plates.Plate)\<close> guards it, and a \<open>Plate\<close> that is
  not an array is wrapped into a one-element array. Where the guard is false the loop
  is not entered, which is the loop over no element.
\<close>

definition platesOf :: "jsval \<Rightarrow> js_error + jsval list" where
  "platesOf result =
     (case getProp ''Plates'' result of
        Inl e \<Rightarrow> Inl e
      | Inr root \<Rightarrow>
          if \<not> truthy root then Inr []
          else (case getProp ''Plate'' root of
                  Inl e \<Rightarrow> Inl e
                | Inr plate \<Rightarrow>
                    if \<not> truthy plate then Inr []
                    else Inr (case plate of JArray ps \<Rightarrow> ps | _ \<Rightarrow> [plate])))"

section \<open>The device and the console\<close>

record cameraConfig =
  name :: string
  url :: string
  username :: string
  password :: string
  tableName :: string

text \<open>
  What the camera does with the request of one cycle: the request fails (network,
  timeout, or the import of the client), or a response arrives with a status and a
  body; reading the body may fail, the XML parser may reject it, or it yields a value.
\<close>

datatype xml_body = BodyUnreadable | XmlRejected | XmlParsed jsval

datatype device_response = NoResponse | HttpResponse nat xml_body

text \<open>\<open>res.ok\<close>: the status is in the range 200 to 299.\<close>

definition ok :: "nat \<Rightarrow> bool" where
  "ok status = (200 \<le> status \<and> status \<le> 299)"

datatype camera_error =
    RequestFailed
  | HttpError nat
  | BodyError
  | XmlError
  | Thrown js_error

text \<open>
  The lines written to the console that carry a result or an error, each with the
  name of its camera or table (banners and the echo of the watermark are left out).
\<close>

datatype log_entry =
    LogWatermarkError string
  | LogFound string nat
  | LogCameraError string camera_error
  | LogInserted string jsval jsval
  | LogInsertError string jsval
  | LogSaved string nat
  | LogNoNew string
  | LogCompleted string

text \<open>
  \<open>fetchVehiclesFromCamera(fromTime, cameraConfig)\<close>. The request carries \<open>fromTime\<close>
  rendered in Asia/Jerusalem; the camera's answer to it is the argument \<open>resp\<close>. One
  \<open>try\<close> encloses the whole body, so every error ends with the error line and
  the \<open>vehicles\<close> pushed so far.
\<close>

definition fetchVehiclesFromCamera ::
  "(wallclock \<Rightarrow> int) \<Rightarrow> (string \<Rightarrow> jsdate) \<Rightarrow> device_response \<Rightarrow> int \<Rightarrow> cameraConfig
     \<Rightarrow> vehicle list \<times> log_entry list" where
  "fetchVehiclesFromCamera israel legacy resp fromTime cam =
     (case resp of
        NoResponse \<Rightarrow> ([], [LogCameraError (name cam) RequestFailed])
      | HttpResponse status body \<Rightarrow>
          if \<not> ok status then ([], [LogCameraError (name cam) (HttpError status)])
          else (case body of
                  BodyUnreadable \<Rightarrow> ([], [LogCameraError (name cam) BodyError])
                | XmlRejected \<Rightarrow> ([], [LogCameraError (name cam) XmlError])
                | XmlParsed result \<Rightarrow>
                    (case platesOf result of
                       Inl e \<Rightarrow> ([], [LogCameraError (name cam) (Thrown e)])
                     | Inr plates \<Rightarrow>
                         (case decodeLoop israel legacy [] plates of
                            (vehicles, Some e) \<Rightarrow>
                              (vehicles, [LogCameraError (name cam) (Thrown e)])
                          | (vehicles, None) \<Rightarrow>
                              (vehicles, [LogFound (name cam) (length vehicles)])))))"

section \<open>The store\<close>

text \<open>
  One table per camera, its rows in the order of insertion. A text column holds the
  value that was bound to it, and two texts match when they are equal; \<open>JUndefined\<close>
  is bound as \<open>NULL\<close>. \<open>CaptureTime\<close> and \<open>InsertTime\<close> hold the time value of the
  \<open>Date\<close> that was bound, and a query reads the same \<open>Date\<close> back.
\<close>

record row =
  CaptureTime :: int
  PlateNumber :: jsval
  PicName :: jsval
  Country :: jsval
  Direction :: jsval
  InsertTime :: int

type_synonym store = "string \<Rightarrow> row list"

text \<open>
  \<^verbatim>\<open>SELECT 1 FROM t WHERE PicName = @picName\<close>: the rows whose \<open>PicName\<close> is the
  bound value. A comparison with \<open>NULL\<close> is never true.
\<close>

definition selectByPicName :: "row list \<Rightarrow> jsval \<Rightarrow> row list" where
  "selectByPicName rows p = filter (\<lambda>r. p \<noteq> JUndefined \<and> PicName r = p) rows"

text \<open>
  What the store does at one vehicle of a batch: either query may fail (the connection,
  a constraint, a value the driver rejects), and \<open>clock\<close> is the \<open>new Date()\<close> of the
  insert.
\<close>

record step_env =
  checkFails :: bool
  insertFails :: bool
  clock :: int

record persist =
  pRows :: "row list"
  pInserted :: nat
  pLog :: "log_entry list"

text \<open>
  The body of the loop of \<open>insertVehiclesToSQL\<close>, inside its own \<open>try\<close>: the existence
  check, then the insert when the check returned no row. The driver refuses to bind
  the Invalid Date to a \<open>DateTime2\<close> parameter, which fails the insert. A failure is
  written to the console and the loop goes on with the next vehicle.
\<close>

definition insertVehicle :: "string \<Rightarrow> step_env \<Rightarrow> vehicle \<Rightarrow> persist \<Rightarrow> persist" where
  "insertVehicle cameraName env v p =
     (if checkFails env
      then p\<lparr> pLog := pLog p @ [LogInsertError cameraName (plateNumber v)] \<rparr>
      else if length (selectByPicName (pRows p) (picName v)) = 0
      then (case captureTime v of
              None \<Rightarrow> p\<lparr> pLog := pLog p @ [LogInsertError cameraName (plateNumber v)] \<rparr>
            | Some t \<Rightarrow>
                if insertFails env
                then p\<lparr> pLog := pLog p @ [LogInsertError cameraName (plateNumber v)] \<rparr>
                else p\<lparr> pRows := pRows p @
                           [\<lparr> CaptureTime = t, PlateNumber = plateNumber v,
                              PicName = picName v, Country = country v,
                              Direction = direction v, InsertTime = clock env \<rparr>],
                         pInserted := pInserted p + 1,
                         pLog := pLog p @ [LogInserted cameraName (plateNumber v) (direction v)] \<rparr>)
      else p)"

text \<open>The loop: the vehicle at position \<open>i\<close> of the batch meets the store as \<open>env i\<close>.\<close>

fun insertLoop ::
  "string \<Rightarrow> (nat \<Rightarrow> step_env) \<Rightarrow> nat \<Rightarrow> vehicle list \<Rightarrow> persist \<Rightarrow> persist" where
  "insertLoop cameraName env i [] p = p"
| "insertLoop cameraName env i (v # vs) p =
     insertLoop cameraName env (Suc i) vs (insertVehicle cameraName (env i) v p)"

text \<open>
  \<open>insertVehiclesToSQL(vehicles, tableName, cameraName)\<close>, on the rows of the table:
  the rows afterwards, the count returned and the console lines.
\<close>

definition insertVehiclesToSQL ::
  "(nat \<Rightarrow> step_env) \<Rightarrow> vehicle list \<Rightarrow> row list \<Rightarrow> string \<Rightarrow> persist" where
  "insertVehiclesToSQL env vehicles rows cameraName =
     (if length vehicles = 0 then \<lparr> pRows = rows, pInserted = 0, pLog = [] \<rparr>
      else (let p = insertLoop cameraName env 0 vehicles
                      \<lparr> pRows = rows, pInserted = 0, pLog = [] \<rparr>
            in p\<lparr> pLog := pLog p @ [LogSaved cameraName (pInserted p)] \<rparr>))"

section \<open>The watermark\<close>

text \<open>
  The time zone of the process, as the engine's \<open>Date\<close> uses it: the offset from UTC
  in force at an instant, and the offset in force at a local wall-clock time. It is
  set by the environment of the process, not by the program.
\<close>

record tz =
  utcOffset :: "int \<Rightarrow> int"
  wallOffset :: "int \<Rightarrow> int"

definition msPerDay :: int where
  "msPerDay = 86400000"

text \<open>
  \<open>today.setHours(0, 0, 0, 0)\<close>: the time value is taken to local time, cut down to
  the start of its day, and taken back to UTC.
\<close>

definition setHours0 :: "tz \<Rightarrow> int \<Rightarrow> int" where
  "setHours0 z t =
     (let localTime = t + utcOffset z t;
          midnight = (localTime div msPerDay) * msPerDay
      in midnight - wallOffset z midnight)"

text \<open>\<^verbatim>\<open>SELECT MAX(CaptureTime)\<close>: \<open>NULL\<close> on a table without rows.\<close>

definition maxCaptureTime :: "row list \<Rightarrow> int option" where
  "maxCaptureTime rows =
     (case rows of
        [] \<Rightarrow> None
      | r # rs \<Rightarrow> Some (foldl (\<lambda>m x. max m (CaptureTime x)) (CaptureTime r) rs))"

text \<open>
  \<open>getLastSyncTime(tableName)\<close>, with \<open>now\<close> the reading of \<open>new Date()\<close> and
  \<open>queryFails\<close> telling whether the query throws.
\<close>

definition getLastSyncTime ::
  "tz \<Rightarrow> int \<Rightarrow> bool \<Rightarrow> store \<Rightarrow> string \<Rightarrow> int \<times> log_entry list" where
  "getLastSyncTime zone now queryFails db table =
     (if queryFails then (setHours0 zone now, [LogWatermarkError table])
      else (case maxCaptureTime (db table) of
              Some lastTime \<Rightarrow> (lastTime, [])
            | None \<Rightarrow> (setHours0 zone now, [])))"

section \<open>One cycle, and one round over all cameras\<close>

text \<open>What lies outside the program and stays the same for the life of the process.\<close>

record host =
  hZone :: tz
  hIsrael :: "wallclock \<Rightarrow> int"
  hLegacy :: "string \<Rightarrow> jsdate"

text \<open>What one cycle of one camera meets: clock, store and camera.\<close>

record cycle_env =
  clockNow :: int
  watermarkFails :: bool
  response :: device_response
  steps :: "nat \<Rightarrow> step_env"

text \<open>
  \<open>syncVehicles(cameraConfig)\<close>: the store afterwards and the console lines. Neither
  \<open>getLastSyncTime\<close> nor \<open>fetchVehiclesFromCamera\<close> nor \<open>insertVehiclesToSQL\<close> lets an
  error out, so the handler of \<open>syncVehicles\<close> itself has nothing to catch.
\<close>

definition syncVehicles :: "host \<Rightarrow> cycle_env \<Rightarrow> cameraConfig \<Rightarrow> store \<Rightarrow> store \<times> log_entry list" where
  "syncVehicles h env cam db =
     (let (lastSync, log1) =
            getLastSyncTime (hZone h) (clockNow env) (watermarkFails env) db (tableName cam);
          (vehicles, log2) =
            fetchVehiclesFromCamera (hIsrael h) (hLegacy h) (response env) lastSync cam
      in if length vehicles > 0
         then (let p = insertVehiclesToSQL (steps env) vehicles (db (tableName cam)) (name cam)
               in (db(tableName cam := pRows p),
                   log1 @ log2 @ pLog p @ [LogCompleted (name cam)]))
         else (db, log1 @ log2 @ [LogNoNew (name cam), LogCompleted (name cam)]))"

text \<open>
  \<open>syncAllCameras(cameras)\<close>: one cycle after the other, each awaited before the next
  starts. Every camera comes with what its cycle meets. The scheduler calls the
  function again and again, so a run of the process is one such pass over the
  concatenation of the rounds.
\<close>

fun syncAllCameras :: "host \<Rightarrow> (cameraConfig \<times> cycle_env) list \<Rightarrow> store \<Rightarrow> store \<times> log_entry list" where
  "syncAllCameras h [] db = (db, [])"
| "syncAllCameras h ((camera, env) # cameras) db =
     (let (db1, log1) = syncVehicles h env camera db;
          (db2, log2) = syncAllCameras h cameras db1
      in (db2, log1 @ log2))"

section \<open>Concrete surroundings\<close>

text \<open>
  Instances of the parameters, for evaluating the program on concrete inputs: the
  count of days from the epoch to a calendar date, the time value of a wall-clock
  reading taken as UTC, and a zone that keeps one offset all year.
\<close>

definition daysFromCivil :: "nat \<Rightarrow> nat \<Rightarrow> nat \<Rightarrow> int" where
  "daysFromCivil y m d =
     (let y' = int y - (if m \<le> 2 then 1 else 0);
          era = y' div 400;
          yoe = y' - era * 400;
          mp = int m + (if m > 2 then -3 else 9);
          doy = (153 * mp + 2) div 5 + int d - 1;
          doe = yoe * 365 + yoe div 4 - yoe div 100 + doy
      in era * 146097 + doe - 719468)"

definition utcMillis :: "wallclock \<Rightarrow> int" where
  "utcMillis w =
     (((daysFromCivil (wYear w) (wMonth w) (wDay w) * 24 + int (wHour w)) * 60
        + int (wMinute w)) * 60 + int (wSecond w)) * 1000"

definition fixedOffsetClock :: "int \<Rightarrow> wallclock \<Rightarrow> int" where
  "fixedOffsetClock off w = utcMillis w - off"

definition fixedOffsetZone :: "int \<Rightarrow> tz" where
  "fixedOffsetZone off = \<lparr> utcOffset = (\<lambda>t. off), wallOffset = (\<lambda>t. off) \<rparr>"

text \<open>Israel Standard Time, two hours ahead of UTC, as in force in January.\<close>

definition israelWinter :: "wallclock \<Rightarrow> int" where
  "israelWinter = fixedOffsetClock 7200000"

definition israelWinterZone :: tz where
  "israelWinterZone = fixedOffsetZone 7200000"

definition utcZone :: tz where
  "utcZone = fixedOffsetZone 0"

text \<open>An engine whose own parser accepts no text that \<open>moment\<close> hands to it.\<close>

definition strictEngine :: "string \<Rightarrow> jsdate" where
  "strictEngine text = None"

text \<open>
  A detection element as \<open>xml2js\<close> delivers it, every child an array of one text, and
  a response document with a list of such elements.
\<close>

definition plateElement :: "string \<Rightarrow> string \<Rightarrow> string \<Rightarrow> string \<Rightarrow> string \<Rightarrow> jsval" where
  "plateElement ct pn pic co di =
     JObject [(''captureTime'', JArray [JString ct]), (''plateNumber'', JArray [JString pn]),
              (''picName'', JArray [JString pic]), (''country'', JArray [JString co]),
              (''direction'', JArray [JString di])]"

definition platesDocument :: "jsval list \<Rightarrow> jsval" where
  "platesDocument ps = JObject [(''Plates'', JObject [(''Plate'', JArray ps)])]"

text \<open>The two cameras that \<open>main\<close> configures.\<close>

definition camera1 :: cameraConfig where
  "camera1 = \<lparr> name = ''Camera1'', url = ''http://camera1'', username = ''admin'',
               password = ''secret'', tableName = ''VehicleDetection'' \<rparr>"

definition camera2 :: cameraConfig where
  "camera2 = \<lparr> name = ''Camera2'', url = ''http://camera2'', username = ''admin'',
               password = ''secret'', tableName = ''VehicleDetection2'' \<rparr>"

text \<open>
  A store that answers every query, one whose inserts all fail, and a process that
  runs in UTC on an engine with a strict parser.
\<close>

definition calm :: "nat \<Rightarrow> step_env" where
  "calm i = \<lparr> checkFails = False, insertFails = False, clock = 1705305600000 \<rparr>"

definition insertsFail :: "nat \<Rightarrow> step_env" where
  "insertsFail i = \<lparr> checkFails = False, insertFails = True, clock = 1705305600000 \<rparr>"

definition utcHost :: host where
  "utcHost = \<lparr> hZone = utcZone, hIsrael = israelWinter, hLegacy = strictEngine \<rparr>"

definition emptyStore :: store where
  "emptyStore table = []"

text \<open>A response with two detections, and a cycle that meets it with a calm store.\<close>

definition twoPlates :: device_response where
  "twoPlates = HttpResponse 200 (XmlParsed (platesDocument
      [plateElement ''20240115T091530+0200'' ''1234567'' ''a.jpg'' ''ISR'' ''forward'',
       plateElement ''20240115T091631+0200'' ''7654321'' ''b.jpg'' ''ISR'' ''reverse'']))"

definition calmCycle :: "device_response \<Rightarrow> cycle_env" where
  "calmCycle resp = \<lparr> clockNow = 1705305600000, watermarkFails = False,
                      response = resp, steps = calm \<rparr>"

text \<open>The first of the two detections as an event, and a store that holds it already.\<close>

definition vehicleA :: vehicle where
  "vehicleA = \<lparr> captureTime = Some 1705302930000, plateNumber = JString ''1234567'',
                picName = JString ''a.jpg'', country = JString ''ISR'',
                direction = JString ''forward'' \<rparr>"

definition recordedA :: store where
  "recordedA table =
     (if table = ''VehicleDetection''
      then [\<lparr> CaptureTime = 1705302930000, PlateNumber = JString ''1234567'',
               PicName = JString ''a.jpg'', Country = JString ''ISR'',
               Direction = JString ''forward'', InsertTime = 1705303000000 \<rparr>]
      else [])"

text \<open>An event whose capture time did not parse: its date is the Invalid Date.\<close>

definition vehicleBad :: vehicle where
  "vehicleBad = \<lparr> captureTime = None, plateNumber = JString ''7654321'',
                  picName = JString ''b.jpg'', country = JString ''ISR'',
                  direction = JString ''reverse'' \<rparr>"

text \<open>A response with one later detection.\<close>

definition plateC :: device_response where
  "plateC = HttpResponse 200 (XmlParsed (platesDocument
      [plateElement ''20240115T101500+0200'' ''5550001'' ''c.jpg'' ''ISR'' ''forward'']))"

text \<open>
  More responses: a document with another root element, a response with a server
  error, and three detections of which the second has no picture name.
\<close>

definition otherRoot :: jsval where
  "otherRoot = JObject [(''ResponseStatus'', JObject [(''statusString'', JArray [JString ''OK''])])]"

definition serverError :: device_response where
  "serverError = HttpResponse 503 (XmlParsed (platesDocument
      [plateElement ''20240115T091530+0200'' ''1234567'' ''a.jpg'' ''ISR'' ''forward'']))"

definition gapSecond :: device_response where
  "gapSecond = HttpResponse 200 (XmlParsed (platesDocument
      [plateElement ''20240115T091530+0200'' ''1234567'' ''a.jpg'' ''ISR'' ''forward'',
       JObject [(''captureTime'', JArray [JString ''20240115T091631+0200'']),
                (''plateNumber'', JArray [JString ''7654321'']),
                (''country'', JArray [JString ''ISR'']),
                (''direction'', JArray [JString ''reverse''])],
       plateElement ''20240115T101500+0200'' ''5550001'' ''c.jpg'' ''ISR'' ''forward'']))"

text \<open>
  Three detections of which the second has no capture time, and three of which the
  second has a capture time in a thirteenth month.
\<close>

definition noTimeSecond :: device_response where
  "noTimeSecond = HttpResponse 200 (XmlParsed (platesDocument
      [plateElement ''20240115T091530+0200'' ''1234567'' ''a.jpg'' ''ISR'' ''forward'',
       JObject [(''plateNumber'', JArray [JString ''7654321'']),
                (''picName'', JArray [JString ''b.jpg'']),
                (''country'', JArray [JString ''ISR'']),
                (''direction'', JArray [JString ''reverse''])],
       plateElement ''20240115T101500+0200'' ''5550001'' ''c.jpg'' ''ISR'' ''forward'']))"

definition badTimeSecond :: device_response where
  "badTimeSecond = HttpResponse 200 (XmlParsed (platesDocument
      [plateElement ''20240115T091530+0200'' ''1234567'' ''a.jpg'' ''ISR'' ''forward'',
       plateElement ''20241315T091631+0200'' ''7654321'' ''b.jpg'' ''ISR'' ''reverse'',
       plateElement ''20240115T101500+0200'' ''5550001'' ''c.jpg'' ''ISR'' ''forward'']))"

text \<open>
  Asia/Jerusalem around 27 October 2024, when the clocks went back from three hours
  ahead of UTC to two at 02:00 summer time, which is 23:00 UTC of 26 October. A
  wall-clock time that occurs twice is taken as the earlier one.
\<close>

definition israelAutumn :: tz where
  "israelAutumn =
     \<lparr> utcOffset = (\<lambda>t. if t < 1729983600000 then 10800000 else 7200000),
       wallOffset = (\<lambda>w. if w < 1729994400000 then 10800000 else 7200000) \<rparr>"

text \<open>
  An engine whose own parser reads one text that is no ISO date as a date, the first of
  January 2024 at 09:15:30 UTC, and a process that runs on it.
\<close>

definition lenientEngine :: "string \<Rightarrow> jsdate" where
  "lenientEngine text = (if text = ''2024-01-1UT09:15:30'' then Some 1704100530000 else None)"

definition lenientHost :: host where
  "lenientHost = \<lparr> hZone = utcZone, hIsrael = israelWinter, hLegacy = lenientEngine \<rparr>"

text \<open>
  Three detections of which the second has a letter in the day of its capture time,
  and the third detection as an event.
\<close>

definition oddTimeSecond :: device_response where
  "oddTimeSecond = HttpResponse 200 (XmlParsed (platesDocument
      [plateElement ''20240115T091530+0200'' ''1234567'' ''a.jpg'' ''ISR'' ''forward'',
       plateElement ''2024011UT091530+0200'' ''7654321'' ''b.jpg'' ''ISR'' ''reverse'',
       plateElement ''20240115T101500+0200'' ''5550001'' ''c.jpg'' ''ISR'' ''forward'']))"

definition vehicleC :: vehicle where
  "vehicleC = \<lparr> captureTime = Some 1705306500000, plateNumber = JString ''5550001'',
                picName = JString ''c.jpg'', country = JString ''ISR'',
                direction = JString ''forward'' \<rparr>"

section \<open>Properties of the store and of the clock\<close>

text \<open>
  No two rows of a table carry the same picture name. A \<open>NULL\<close> is no picture name.
\<close>

definition uniquePicNames :: "row list \<Rightarrow> bool" where
  "uniquePicNames rows = distinct (filter (\<lambda>p. p \<noteq> JUndefined) (map PicName rows))"

text \<open>
  The store at the start of cycle \<open>k\<close> of a run, counted from 0, and the watermark
  which that cycle resolves for its camera.
\<close>

definition storeAt :: "host \<Rightarrow> (cameraConfig \<times> cycle_env) list \<Rightarrow> store \<Rightarrow> nat \<Rightarrow> store" where
  "storeAt h cycles db k = fst (syncAllCameras h (take k cycles) db)"

definition watermarkAt :: "host \<Rightarrow> (cameraConfig \<times> cycle_env) list \<Rightarrow> store \<Rightarrow> nat \<Rightarrow> int" where
  "watermarkAt h cycles db k =
     (let camera = fst (cycles ! k); env = snd (cycles ! k)
      in fst (getLastSyncTime (hZone h) (clockNow env) (watermarkFails env)
                (storeAt h cycles db k) (tableName camera)))"

text \<open>
  00:00:00 of the local calendar day that contains the instant \<open>t\<close>, as a wall-clock
  time of the zone.
\<close>

definition localMidnight :: "tz \<Rightarrow> int \<Rightarrow> int" where
  "localMidnight z t = ((t + utcOffset z t) div msPerDay) * msPerDay"

text \<open>
  The rows of the events of a batch that carry a date, in the order of the batch, the
  event at position \<open>i\<close> with the clock of its insert; and the console line of each
  event, an insert for a date and an error for the Invalid Date.
\<close>

fun persistedRows :: "(nat \<Rightarrow> step_env) \<Rightarrow> nat \<Rightarrow> vehicle list \<Rightarrow> row list" where
  "persistedRows env i [] = []"
| "persistedRows env i (v # vs) =
     (case captureTime v of
        None \<Rightarrow> []
      | Some t \<Rightarrow> [\<lparr> CaptureTime = t, PlateNumber = plateNumber v, PicName = picName v,
                      Country = country v, Direction = direction v,
                      InsertTime = clock (env i) \<rparr>])
     @ persistedRows env (Suc i) vs"

definition persistedLog :: "string \<Rightarrow> vehicle list \<Rightarrow> log_entry list" where
  "persistedLog cameraName vs =
     map (\<lambda>v. case captureTime v of
                 None \<Rightarrow> LogInsertError cameraName (plateNumber v)
               | Some t \<Rightarrow> LogInserted cameraName (plateNumber v) (direction v)) vs"

section \<open>The capture time is read by position\<close>

lemma captureTimeText_fields:
  assumes "length Y = 4" "length Mo = 2" "length D = 2"
    and "length h = 2" "length mi = 2" "length se = 2"
  shows "captureTimeText (Y @ Mo @ D @ g # h @ mi @ se @ rest)
         = Y @ ''-'' @ Mo @ ''-'' @ D @ ''T'' @ h @ '':'' @ mi @ '':'' @ se"
  using assms by (simp add: captureTimeText_def substring_def)

lemma isoLocal_fields:
  assumes "length Y = 4" "length Mo = 2" "length D = 2"
    and "length h = 2" "length mi = 2" "length se = 2"
    and "list_all isDigit (Y @ Mo @ D @ h @ mi @ se)"
  shows "isoLocal (Y @ ''-'' @ Mo @ ''-'' @ D @ ''T'' @ h @ '':'' @ mi @ '':'' @ se)
         = Some \<lparr> wYear = digitsToNat Y, wMonth = digitsToNat Mo, wDay = digitsToNat D,
                   wHour = digitsToNat h, wMinute = digitsToNat mi, wSecond = digitsToNat se \<rparr>"
  using assms by (simp add: isoLocal_def substring_def nth_append)

text \<open>
  Claim C3, as amended. The device string is read by position: four digits of year at
  0 to 3, month at 4 and 5, day at 6 and 7, one character at 8 that is skipped
  whatever it is, hour at 9 and 10, minute at 11 and 12, second at 13 and 14, and
  anything after position 14 is ignored. When the six fields are digits and denote a
  date and a time of day, the result is the instant at which the clocks of
  Asia/Jerusalem show them. So \<open>20240115T091530\<close>, with the gap character in place,
  decodes to 2024-01-15 09:15:30 in that zone.
\<close>

theorem decodeCaptureTime_positional:
  assumes "length Y = 4" "length Mo = 2" "length D = 2"
    and "length h = 2" "length mi = 2" "length se = 2"
    and "list_all isDigit (Y @ Mo @ D @ h @ mi @ se)"
    and "validWallclock \<lparr> wYear = digitsToNat Y, wMonth = digitsToNat Mo,
                           wDay = digitsToNat D, wHour = digitsToNat h,
                           wMinute = digitsToNat mi, wSecond = digitsToNat se \<rparr>"
  shows "decodeCaptureTime israel legacy (Y @ Mo @ D @ g # h @ mi @ se @ rest)
           = Some (israel \<lparr> wYear = digitsToNat Y, wMonth = digitsToNat Mo,
                             wDay = digitsToNat D, wHour = digitsToNat h,
                             wMinute = digitsToNat mi, wSecond = digitsToNat se \<rparr>)
         \<and> decodeCaptureTime israel legacy ''20240115T091530''
           = Some (israel \<lparr> wYear = 2024, wMonth = 1, wDay = 15,
                             wHour = 9, wMinute = 15, wSecond = 30 \<rparr>)"
proof
  show "decodeCaptureTime israel legacy (Y @ Mo @ D @ g # h @ mi @ se @ rest)
           = Some (israel \<lparr> wYear = digitsToNat Y, wMonth = digitsToNat Mo,
                             wDay = digitsToNat D, wHour = digitsToNat h,
                             wMinute = digitsToNat mi, wSecond = digitsToNat se \<rparr>)"
    unfolding decodeCaptureTime_def momentTz_def
    using assms by (simp only: captureTimeText_fields isoLocal_fields option.case if_True)
  show "decodeCaptureTime israel legacy ''20240115T091530''
           = Some (israel \<lparr> wYear = 2024, wMonth = 1, wDay = 15,
                             wHour = 9, wMinute = 15, wSecond = 30 \<rparr>)"
    by (simp add: decodeCaptureTime_def momentTz_def captureTimeText_def substring_def
        isoLocal_def isDigit_def digitsToNat_def validWallclock_def daysInMonth_def)
qed

text \<open>
  The theorem at the string a camera sends for that moment, zone suffix included: in
  January the clocks of Asia/Jerusalem are two hours ahead of UTC, and the instant is
  1705302930000 milliseconds after the epoch.
\<close>

theorem decodeCaptureTime_positional_witness:
  "list_all isDigit (''2024'' @ ''01'' @ ''15'' @ ''09'' @ ''15'' @ ''30'')
   \<and> validWallclock \<lparr> wYear = digitsToNat ''2024'', wMonth = digitsToNat ''01'',
                       wDay = digitsToNat ''15'', wHour = digitsToNat ''09'',
                       wMinute = digitsToNat ''15'', wSecond = digitsToNat ''30'' \<rparr>
   \<and> decodeCaptureTime israelWinter strictEngine ''20240115T091530+0200''
       = Some 1705302930000"
  using decodeCaptureTime_positional
          [of "''2024''" "''01''" "''15''" "''09''" "''15''" "''30''"
              israelWinter strictEngine "CHR ''T''" "''+0200''"]
  by (simp add: isDigit_def digitsToNat_def validWallclock_def daysInMonth_def
      israelWinter_def fixedOffsetClock_def utcMillis_def daysFromCivil_def)

text \<open>
  Claim C3 as it was written fails at its own example. The fourteen digits
  \<open>20240115091530\<close> have no gap character: position 8 holds the first digit of the
  hour and is skipped, the hour is read as 91, the minute as 53, and a single
  character is left for the second. The text handed to \<open>moment\<close> is no ISO date, and
  on an engine that rejects it the result is the Invalid Date, not 09:15:30.
\<close>

theorem decodeCaptureTime_no_gap_counterexample:
  "captureTimeText ''20240115091530'' = ''2024-01-15T91:53:0''
   \<and> decodeCaptureTime israelWinter strictEngine ''20240115091530''
       \<noteq> Some (israelWinter \<lparr> wYear = 2024, wMonth = 1, wDay = 15,
                                 wHour = 9, wMinute = 15, wSecond = 30 \<rparr>)"
  by (simp add: decodeCaptureTime_def momentTz_def captureTimeText_def substring_def
      isoLocal_def strictEngine_def)

section \<open>Deduplication by picture name\<close>

lemma selectByPicName_empty:
  "(selectByPicName rows p = []) = (p = JUndefined \<or> p \<notin> PicName ` set rows)"
  by (auto simp: selectByPicName_def filter_empty_conv)

lemma insertVehicle_unique:
  "uniquePicNames (pRows p) \<Longrightarrow> uniquePicNames (pRows (insertVehicle cam e v p))"
  by (auto simp: insertVehicle_def uniquePicNames_def selectByPicName_empty split: option.splits)

lemma insertLoop_unique:
  "uniquePicNames (pRows p) \<Longrightarrow> uniquePicNames (pRows (insertLoop cam env i vs p))"
  by (induction vs arbitrary: i p) (simp_all add: insertVehicle_unique)

lemma insertVehiclesToSQL_unique:
  "uniquePicNames rows \<Longrightarrow> uniquePicNames (pRows (insertVehiclesToSQL env vs rows cam))"
  using insertLoop_unique [of "\<lparr> pRows = rows, pInserted = 0, pLog = [] \<rparr>" cam env 0 vs]
  by (simp add: insertVehiclesToSQL_def Let_def)

text \<open>A cycle touches no table but its own, and that one only through the insert loop.\<close>

lemma syncVehicles_table:
  "fst (syncVehicles h env cam db) t = db t
   \<or> (t = tableName cam \<and> (\<exists>vs. vs \<noteq> [] \<and> fst (syncVehicles h env cam db) t
         = pRows (insertVehiclesToSQL (steps env) vs (db t) (name cam))))"
  by (auto simp: syncVehicles_def Let_def split: prod.splits)

lemma syncVehicles_unique:
  "uniquePicNames (db t) \<Longrightarrow> uniquePicNames (fst (syncVehicles h env cam db) t)"
  using syncVehicles_table [of h env cam db t] by (auto simp: insertVehiclesToSQL_unique)

lemma syncAllCameras_unique:
  "uniquePicNames (db t) \<Longrightarrow> uniquePicNames (fst (syncAllCameras h cycles db) t)"
proof (induction cycles arbitrary: db)
  case Nil
  then show ?case by simp
next
  case (Cons c cycles)
  obtain cam env where c: "c = (cam, env)" by (cases c)
  have "uniquePicNames (fst (syncVehicles h env cam db) t)"
    using Cons.prems by (rule syncVehicles_unique)
  then have "uniquePicNames (fst (syncAllCameras h cycles (fst (syncVehicles h env cam db))) t)"
    by (rule Cons.IH)
  then show ?case
    by (simp add: c split_beta)
qed

lemma insertVehicle_recorded:
  assumes "picName v \<in> PicName ` set (pRows p)" "picName v \<noteq> JUndefined"
  shows "pRows (insertVehicle cam e v p) = pRows p
         \<and> pInserted (insertVehicle cam e v p) = pInserted p"
proof -
  from assms have "selectByPicName (pRows p) (picName v) \<noteq> []"
    by (simp add: selectByPicName_empty)
  then show ?thesis by (simp add: insertVehicle_def)
qed

text \<open>
  Claim C1. Cycles run one after the other. If no two rows of a table share a picture
  name, then after any sequence of cycles, of any cameras, whatever the cameras answer
  and whatever the store does at each query, still no two rows of that table share a
  picture name; the same holds for one call of \<open>insertVehiclesToSQL\<close>. An event whose
  picture name is already in the table is left out: the table stays as it is and the
  count is 0.
\<close>

theorem picName_unique_preserved:
  assumes "uniquePicNames (db table)"
  shows "uniquePicNames (fst (syncAllCameras h cycles db) table)
         \<and> uniquePicNames (pRows (insertVehiclesToSQL env vehicles (db table) cameraName))
         \<and> (picName v \<noteq> JUndefined \<and> picName v \<in> PicName ` set (db table) \<longrightarrow>
              pRows (insertVehiclesToSQL env [v] (db table) cameraName) = db table
              \<and> pInserted (insertVehiclesToSQL env [v] (db table) cameraName) = 0)"
proof (intro conjI impI)
  show "uniquePicNames (fst (syncAllCameras h cycles db) table)"
    using assms by (rule syncAllCameras_unique)
  show "uniquePicNames (pRows (insertVehiclesToSQL env vehicles (db table) cameraName))"
    using assms by (rule insertVehiclesToSQL_unique)
next
  assume a: "picName v \<noteq> JUndefined \<and> picName v \<in> PicName ` set (db table)"
  then show "pRows (insertVehiclesToSQL env [v] (db table) cameraName) = db table"
    using insertVehicle_recorded
            [of v "\<lparr> pRows = db table, pInserted = 0, pLog = [] \<rparr>" cameraName "env 0"]
    by (simp add: insertVehiclesToSQL_def Let_def)
  from a show "pInserted (insertVehiclesToSQL env [v] (db table) cameraName) = 0"
    using insertVehicle_recorded
            [of v "\<lparr> pRows = db table, pInserted = 0, pLog = [] \<rparr>" cameraName "env 0"]
    by (simp add: insertVehiclesToSQL_def Let_def)
qed

text \<open>
  The theorem on a table that holds \<open>a.jpg\<close>: two cycles in a row receive \<open>a.jpg\<close> and
  \<open>b.jpg\<close>, and the table ends with one row for each.
\<close>

theorem picName_unique_preserved_witness:
  "uniquePicNames (recordedA ''VehicleDetection'')
   \<and> picName vehicleA \<in> PicName ` set (recordedA ''VehicleDetection'')
   \<and> map PicName (fst (syncAllCameras utcHost
          [(camera1, calmCycle twoPlates), (camera1, calmCycle twoPlates)] recordedA)
          ''VehicleDetection'')
       = [JString ''a.jpg'', JString ''b.jpg'']
   \<and> uniquePicNames (fst (syncAllCameras utcHost
          [(camera1, calmCycle twoPlates), (camera1, calmCycle twoPlates)] recordedA)
          ''VehicleDetection'')
   \<and> pInserted (insertVehiclesToSQL calm [vehicleA] (recordedA ''VehicleDetection'')
        ''Camera1'') = 0"
proof -
  have u: "uniquePicNames (recordedA ''VehicleDetection'')"
    by (simp add: uniquePicNames_def recordedA_def)
  have m: "picName vehicleA \<noteq> JUndefined
           \<and> picName vehicleA \<in> PicName ` set (recordedA ''VehicleDetection'')"
    by (simp add: vehicleA_def recordedA_def)
  have e: "map PicName (fst (syncAllCameras utcHost
          [(camera1, calmCycle twoPlates), (camera1, calmCycle twoPlates)] recordedA)
          ''VehicleDetection'')
       = [JString ''a.jpg'', JString ''b.jpg'']"
    by code_simp
  note t = picName_unique_preserved [of recordedA "''VehicleDetection''" utcHost
          "[(camera1, calmCycle twoPlates), (camera1, calmCycle twoPlates)]"
          calm "[vehicleA]" "''Camera1''" vehicleA, OF u]
  from t u m e show ?thesis by blast
qed

section \<open>Running the insert loop twice\<close>

lemma insertVehicle_rows_grow:
  "\<exists>new. pRows (insertVehicle cam e v p) = pRows p @ new"
  by (simp add: insertVehicle_def split: option.splits)

lemma insertLoop_rows_grow:
  "\<exists>new. pRows (insertLoop cam env i vs p) = pRows p @ new"
proof (induction vs arbitrary: i p)
  case Nil
  then show ?case by simp
next
  case (Cons v vs)
  obtain n1 where n1: "pRows (insertVehicle cam (env i) v p) = pRows p @ n1"
    using insertVehicle_rows_grow by blast
  obtain n2 where "pRows (insertLoop cam env (Suc i) vs (insertVehicle cam (env i) v p))
                   = pRows (insertVehicle cam (env i) v p) @ n2"
    using Cons.IH by blast
  with n1 show ?case by simp
qed

lemma insertVehicle_settles:
  assumes "\<not> checkFails e" "\<not> insertFails e" "picName v \<noteq> JUndefined"
  shows "captureTime v = None \<or> picName v \<in> PicName ` set (pRows (insertVehicle cam e v p))"
  using assms by (auto simp: insertVehicle_def selectByPicName_empty split: option.splits)

lemma insertLoop_settles:
  assumes "\<forall>j<length vs. \<not> checkFails (env (i + j)) \<and> \<not> insertFails (env (i + j))"
    and "\<forall>v\<in>set vs. picName v \<noteq> JUndefined"
  shows "\<forall>v\<in>set vs. captureTime v = None
           \<or> picName v \<in> PicName ` set (pRows (insertLoop cam env i vs p))"
  using assms
proof (induction vs arbitrary: i p)
  case Nil
  then show ?case by simp
next
  case (Cons v vs)
  let ?p = "insertVehicle cam (env i) v p"
  have calm0: "\<not> checkFails (env i) \<and> \<not> insertFails (env i)"
    using Cons.prems(1) by force
  have rest: "\<forall>j<length vs. \<not> checkFails (env (Suc i + j)) \<and> \<not> insertFails (env (Suc i + j))"
    using Cons.prems(1) by force
  have tail: "\<forall>u\<in>set vs. captureTime u = None
           \<or> picName u \<in> PicName ` set (pRows (insertLoop cam env (Suc i) vs ?p))"
    using Cons.IH [OF rest] Cons.prems(2) by simp
  have "captureTime v = None \<or> picName v \<in> PicName ` set (pRows ?p)"
    using calm0 Cons.prems(2) by (simp add: insertVehicle_settles)
  moreover obtain new where "pRows (insertLoop cam env (Suc i) vs ?p) = pRows ?p @ new"
    using insertLoop_rows_grow by blast
  ultimately have "captureTime v = None
           \<or> picName v \<in> PicName ` set (pRows (insertLoop cam env (Suc i) vs ?p))"
    by auto
  with tail show ?case by simp
qed

lemma insertVehicle_settled:
  assumes "picName v \<noteq> JUndefined"
    and "captureTime v = None \<or> picName v \<in> PicName ` set (pRows p)"
  shows "pRows (insertVehicle cam e v p) = pRows p
         \<and> pInserted (insertVehicle cam e v p) = pInserted p"
  using assms by (auto simp: insertVehicle_def selectByPicName_empty)

lemma insertLoop_settled:
  assumes "\<forall>v\<in>set vs. picName v \<noteq> JUndefined
             \<and> (captureTime v = None \<or> picName v \<in> PicName ` set (pRows p))"
  shows "pRows (insertLoop cam env i vs p) = pRows p
         \<and> pInserted (insertLoop cam env i vs p) = pInserted p"
  using assms
proof (induction vs arbitrary: i p)
  case Nil
  then show ?case by simp
next
  case (Cons v vs)
  let ?p = "insertVehicle cam (env i) v p"
  have same: "pRows ?p = pRows p \<and> pInserted ?p = pInserted p"
    using Cons.prems by (simp add: insertVehicle_settled)
  then have "\<forall>u\<in>set vs. picName u \<noteq> JUndefined
             \<and> (captureTime u = None \<or> picName u \<in> PicName ` set (pRows ?p))"
    using Cons.prems by simp
  from Cons.IH [OF this] same show ?case by simp
qed

text \<open>
  Claim C2, as amended. Let the store answer every query of a first run of
  \<open>insertVehiclesToSQL\<close>, and let every event carry a picture name. Then a second run
  with the same event list, from the table the first run left, inserts no row and
  returns 0, whatever the store does during the second run. An event with the Invalid
  Date is inserted by neither run.
\<close>

theorem second_run_inserts_nothing:
  assumes "\<forall>i<length vehicles. \<not> checkFails (env1 i) \<and> \<not> insertFails (env1 i)"
    and "\<forall>v\<in>set vehicles. picName v \<noteq> JUndefined"
  shows "pInserted (insertVehiclesToSQL env2 vehicles
           (pRows (insertVehiclesToSQL env1 vehicles rows cam)) cam) = 0
         \<and> pRows (insertVehiclesToSQL env2 vehicles
           (pRows (insertVehiclesToSQL env1 vehicles rows cam)) cam)
           = pRows (insertVehiclesToSQL env1 vehicles rows cam)"
proof (cases "vehicles = []")
  case True
  then show ?thesis by (simp add: insertVehiclesToSQL_def)
next
  case False
  let ?p0 = "\<lparr> pRows = rows, pInserted = 0, pLog = [] \<rparr>"
  let ?rows1 = "pRows (insertLoop cam env1 0 vehicles ?p0)"
  have first: "pRows (insertVehiclesToSQL env1 vehicles rows cam) = ?rows1"
    using False by (simp add: insertVehiclesToSQL_def Let_def)
  have "\<forall>v\<in>set vehicles. captureTime v = None \<or> picName v \<in> PicName ` set ?rows1"
    using insertLoop_settles [of vehicles env1 0 cam ?p0] assms by simp
  with assms(2) have "\<forall>v\<in>set vehicles. picName v \<noteq> JUndefined
      \<and> (captureTime v = None
          \<or> picName v \<in> PicName ` set (pRows \<lparr> pRows = ?rows1, pInserted = 0, pLog = [] \<rparr>))"
    by simp
  from insertLoop_settled [OF this, of cam env2 0] first False
  show ?thesis by (simp add: insertVehiclesToSQL_def Let_def)
qed

text \<open>
  The theorem on two events, one of them with the Invalid Date: the first run inserts
  one row, the second none.
\<close>

theorem second_run_inserts_nothing_witness:
  "pInserted (insertVehiclesToSQL calm [vehicleA, vehicleBad] [] ''Camera1'') = 1
   \<and> pInserted (insertVehiclesToSQL calm [vehicleA, vehicleBad]
        (pRows (insertVehiclesToSQL calm [vehicleA, vehicleBad] [] ''Camera1'')) ''Camera1'') = 0"
proof -
  have a: "\<forall>i<length [vehicleA, vehicleBad]. \<not> checkFails (calm i) \<and> \<not> insertFails (calm i)"
    by (simp add: calm_def)
  have b: "\<forall>v\<in>set [vehicleA, vehicleBad]. picName v \<noteq> JUndefined"
    by (simp add: vehicleA_def vehicleBad_def)
  have c: "pInserted (insertVehiclesToSQL calm [vehicleA, vehicleBad] [] ''Camera1'') = 1"
    by code_simp
  from second_run_inserts_nothing [OF a b, of calm "[]" "''Camera1''"] c
  show ?thesis by simp
qed

text \<open>
  Claim C2 as it was written fails when an insert of the first run fails: the handler
  inside the loop takes the error, the event is not in the table after the first run,
  and a second run with the same event list inserts it and returns 1.
\<close>

theorem second_run_after_failure_counterexample:
  "pRows (insertVehiclesToSQL insertsFail [vehicleA] [] ''Camera1'') = []
   \<and> pInserted (insertVehiclesToSQL insertsFail [vehicleA] [] ''Camera1'') = 0
   \<and> pInserted (insertVehiclesToSQL calm [vehicleA]
        (pRows (insertVehiclesToSQL insertsFail [vehicleA] [] ''Camera1'')) ''Camera1'') = 1"
  by (simp add: insertVehiclesToSQL_def insertVehicle_def selectByPicName_def
      insertsFail_def calm_def vehicleA_def)

section \<open>The watermark of a cycle\<close>

lemma foldl_max_Max:
  "foldl (\<lambda>m x. max m (f x)) (a::int) xs = Max (insert a (f ` set xs))"
proof (induction xs arbitrary: a)
  case Nil
  then show ?case by simp
next
  case (Cons y ys)
  have "Max (insert (max a (f y)) (f ` set ys)) = Max (insert a (insert (f y) (f ` set ys)))"
    by (cases "set ys = {}") (simp_all add: max.assoc)
  with Cons.IH [of "max a (f y)"] show ?case by simp
qed

lemma maxCaptureTime_Max:
  "rows \<noteq> [] \<Longrightarrow> maxCaptureTime rows = Some (Max (CaptureTime ` set rows))"
  by (cases rows) (simp_all add: maxCaptureTime_def foldl_max_Max)

lemma maxCaptureTime_Nil: "maxCaptureTime [] = None"
  by (simp add: maxCaptureTime_def)

lemma floor_to_multiple:
  assumes "0 < (d::int)"
  shows "(x div d) * d \<le> x \<and> x < (x div d) * d + d"
proof -
  have "x = (x div d) * d + x mod d" by simp
  moreover have "0 \<le> x mod d" "x mod d < d" using assms by simp_all
  ultimately show ?thesis by linarith
qed

text \<open>
  Claim C4, as amended. \<open>getLastSyncTime\<close> returns the greatest \<open>CaptureTime\<close> of
  the table when the query succeeds and the table has a row. When the table is empty,
  and when the query fails, it returns \<open>setHours0\<close> of the current instant in the time
  zone the process runs in; a failed query is written to the console and goes no
  further. That instant is 00:00:00 of the local calendar day that contains the
  current instant, taken back to UTC with the offset in force at that wall-clock time.
  It reads 00:00:00 on the local clock when that offset is the one in force at the
  instant itself. It lies before the current instant by the local time of day, which
  is less than a day, plus the change of the offset between that midnight and now: by
  less than a day when the offset has not changed, and in every zone with one offset
  all year.
\<close>

theorem getLastSyncTime_contract:
  "(\<not> queryFails \<and> db table \<noteq> [] \<longrightarrow>
      getLastSyncTime zone now queryFails db table = (Max (CaptureTime ` set (db table)), []))
   \<and> (\<not> queryFails \<and> db table = [] \<longrightarrow>
      getLastSyncTime zone now queryFails db table = (setHours0 zone now, []))
   \<and> (queryFails \<longrightarrow>
      getLastSyncTime zone now queryFails db table = (setHours0 zone now, [LogWatermarkError table]))
   \<and> setHours0 zone now + wallOffset zone (localMidnight zone now) = localMidnight zone now
   \<and> localMidnight zone now mod msPerDay = 0
   \<and> localMidnight zone now \<le> now + utcOffset zone now
   \<and> now + utcOffset zone now < localMidnight zone now + msPerDay
   \<and> (utcOffset zone (setHours0 zone now) = wallOffset zone (localMidnight zone now) \<longrightarrow>
        setHours0 zone now + utcOffset zone (setHours0 zone now) = localMidnight zone now)
   \<and> now - setHours0 zone now
       = (now + utcOffset zone now - localMidnight zone now)
         + (wallOffset zone (localMidnight zone now) - utcOffset zone now)
   \<and> (wallOffset zone (localMidnight zone now) = utcOffset zone now \<longrightarrow>
        setHours0 zone now \<le> now \<and> now < setHours0 zone now + msPerDay)
   \<and> setHours0 (fixedOffsetZone off) now \<le> now
   \<and> now < setHours0 (fixedOffsetZone off) now + msPerDay
   \<and> (setHours0 (fixedOffsetZone off) now + off) mod msPerDay = 0"
proof -
  have day: "0 < msPerDay" by (simp add: msPerDay_def)
  have s: "setHours0 z t = localMidnight z t - wallOffset z (localMidnight z t)" for z t
    by (simp add: setHours0_def localMidnight_def Let_def)
  have b: "localMidnight z t \<le> t + utcOffset z t
           \<and> t + utcOffset z t < localMidnight z t + msPerDay" for z t
    unfolding localMidnight_def using floor_to_multiple [OF day, of "t + utcOffset z t"] by simp
  have m: "localMidnight z t mod msPerDay = 0" for z t
    by (simp add: localMidnight_def)
  have f: "wallOffset (fixedOffsetZone off) w = off" "utcOffset (fixedOffsetZone off) t = off"
    for w t
    by (simp_all add: fixedOffsetZone_def)
  have g: "(\<not> queryFails \<and> db table \<noteq> [] \<longrightarrow>
      getLastSyncTime zone now queryFails db table = (Max (CaptureTime ` set (db table)), []))
   \<and> (\<not> queryFails \<and> db table = [] \<longrightarrow>
      getLastSyncTime zone now queryFails db table = (setHours0 zone now, []))
   \<and> (queryFails \<longrightarrow>
      getLastSyncTime zone now queryFails db table = (setHours0 zone now, [LogWatermarkError table]))"
    by (simp add: getLastSyncTime_def maxCaptureTime_Max maxCaptureTime_Nil)
  have fx: "setHours0 (fixedOffsetZone off) now \<le> now
            \<and> now < setHours0 (fixedOffsetZone off) now + msPerDay
            \<and> (setHours0 (fixedOffsetZone off) now + off) mod msPerDay = 0"
    using b [of "fixedOffsetZone off" now] m [of "fixedOffsetZone off" now]
    by (simp add: s f)
  have gen: "setHours0 zone now + wallOffset zone (localMidnight zone now) = localMidnight zone now
   \<and> (utcOffset zone (setHours0 zone now) = wallOffset zone (localMidnight zone now) \<longrightarrow>
        setHours0 zone now + utcOffset zone (setHours0 zone now) = localMidnight zone now)
   \<and> now - setHours0 zone now
       = (now + utcOffset zone now - localMidnight zone now)
         + (wallOffset zone (localMidnight zone now) - utcOffset zone now)
   \<and> (wallOffset zone (localMidnight zone now) = utcOffset zone now \<longrightarrow>
        setHours0 zone now \<le> now \<and> now < setHours0 zone now + msPerDay)"
    using b [of zone now] by (simp add: s)
  from g fx gen b [of zone now] m [of zone now] show ?thesis by simp
qed

text \<open>
  The theorem on a process in UTC at 23:30 UTC of 15 January 2024: the greatest capture
  time of a table with one row, and 00:00 UTC of that day for an empty table and for a
  failed query. And on a process in Asia/Jerusalem at 23:30 of 27 October 2024, the
  day the clocks went back one hour: the start of that day is 00:00 summer time, which
  is 21:00 UTC of 26 October, 24.5 hours before the current instant.
\<close>

theorem getLastSyncTime_contract_witness:
  "getLastSyncTime utcZone 1705361400000 False recordedA ''VehicleDetection'' = (1705302930000, [])
   \<and> getLastSyncTime utcZone 1705361400000 False emptyStore ''VehicleDetection'' = (1705276800000, [])
   \<and> getLastSyncTime utcZone 1705361400000 True recordedA ''VehicleDetection''
       = (1705276800000, [LogWatermarkError ''VehicleDetection''])
   \<and> utcMillis \<lparr> wYear = 2024, wMonth = 1, wDay = 15, wHour = 0, wMinute = 0, wSecond = 0 \<rparr> = 1705276800000
   \<and> utcMillis \<lparr> wYear = 2024, wMonth = 1, wDay = 15, wHour = 23, wMinute = 30, wSecond = 0 \<rparr> = 1705361400000
   \<and> getLastSyncTime israelAutumn 1730064600000 False emptyStore ''VehicleDetection''
       = (1729976400000, [])
   \<and> localMidnight israelAutumn 1730064600000
       = utcMillis \<lparr> wYear = 2024, wMonth = 10, wDay = 27, wHour = 0, wMinute = 0, wSecond = 0 \<rparr>
   \<and> 1730064600000 - setHours0 israelAutumn 1730064600000 = 88200000"
proof -
  have r: "recordedA ''VehicleDetection'' \<noteq> []" "emptyStore ''VehicleDetection'' = []"
    by (simp_all add: recordedA_def emptyStore_def)
  have s: "setHours0 utcZone 1705361400000 = 1705276800000"
    by (simp add: setHours0_def utcZone_def fixedOffsetZone_def msPerDay_def)
  have m: "Max (CaptureTime ` set (recordedA ''VehicleDetection'')) = 1705302930000"
    by (simp add: recordedA_def)
  have u: "utcMillis \<lparr> wYear = 2024, wMonth = 1, wDay = 15, wHour = 0, wMinute = 0, wSecond = 0 \<rparr> = 1705276800000"
     "utcMillis \<lparr> wYear = 2024, wMonth = 1, wDay = 15, wHour = 23, wMinute = 30, wSecond = 0 \<rparr> = 1705361400000"
     "utcMillis \<lparr> wYear = 2024, wMonth = 10, wDay = 27, wHour = 0, wMinute = 0, wSecond = 0 \<rparr> = 1729987200000"
    by (simp_all add: utcMillis_def daysFromCivil_def)
  have a: "localMidnight israelAutumn 1730064600000 = 1729987200000"
      "utcOffset israelAutumn 1730064600000 = 7200000"
      "wallOffset israelAutumn 1729987200000 = 10800000"
    by (simp_all add: localMidnight_def israelAutumn_def msPerDay_def)
  note t = getLastSyncTime_contract [where zone = israelAutumn and now = 1730064600000
      and queryFails = False and db = emptyStore and table = "''VehicleDetection''" and off = 0]
  from t a have sa: "setHours0 israelAutumn 1730064600000 = 1729976400000" by simp
  from getLastSyncTime_contract [of False recordedA "''VehicleDetection''" utcZone 1705361400000 0]
       getLastSyncTime_contract [of False emptyStore "''VehicleDetection''" utcZone 1705361400000 0]
       getLastSyncTime_contract [of True recordedA "''VehicleDetection''" utcZone 1705361400000 0]
       t r s m u a sa
  show ?thesis by simp
qed

text \<open>
  Claim C4 as it was written names the fixed zone of the camera, Asia/Jerusalem. The
  program takes the start of the day in the zone of the process. On a process in UTC,
  at 23:30 UTC of 15 January, the result is 00:00 UTC of 15 January, while the day in
  Asia/Jerusalem, where it is 01:30 of 16 January, began at 00:00 of 16 January there.
\<close>

theorem getLastSyncTime_fixed_zone_counterexample:
  "fst (getLastSyncTime utcZone 1705361400000 False emptyStore ''VehicleDetection'')
     = utcMillis \<lparr> wYear = 2024, wMonth = 1, wDay = 15, wHour = 0, wMinute = 0, wSecond = 0 \<rparr>
   \<and> setHours0 israelWinterZone 1705361400000
     = israelWinter \<lparr> wYear = 2024, wMonth = 1, wDay = 16, wHour = 0, wMinute = 0, wSecond = 0 \<rparr>
   \<and> fst (getLastSyncTime utcZone 1705361400000 False emptyStore ''VehicleDetection'')
     \<noteq> setHours0 israelWinterZone 1705361400000"
  by (simp add: getLastSyncTime_def maxCaptureTime_def emptyStore_def setHours0_def utcZone_def
      israelWinterZone_def fixedOffsetZone_def msPerDay_def israelWinter_def fixedOffsetClock_def
      utcMillis_def daysFromCivil_def)

section \<open>Rows are only added\<close>
lemma insertVehiclesToSQL_rows_grow:
  "\<exists>new. pRows (insertVehiclesToSQL env vs rows cam) = rows @ new"
  using insertLoop_rows_grow [of cam env 0 vs "\<lparr> pRows = rows, pInserted = 0, pLog = [] \<rparr>"]
  by (simp add: insertVehiclesToSQL_def Let_def)

lemma syncVehicles_rows_grow:
  "\<exists>new. fst (syncVehicles h env cam db) t = db t @ new"
  using syncVehicles_table [of h env cam db t] insertVehiclesToSQL_rows_grow
  by (metis append_Nil2)

lemma syncAllCameras_rows_grow:
  "\<exists>new. fst (syncAllCameras h cycles db) t = db t @ new"
proof (induction cycles arbitrary: db)
  case Nil
  then show ?case by simp
next
  case (Cons c cycles)
  obtain cam env where c: "c = (cam, env)" by (cases c)
  obtain n1 where n1: "fst (syncVehicles h env cam db) t = db t @ n1"
    using syncVehicles_rows_grow by blast
  obtain n2 where "fst (syncAllCameras h cycles (fst (syncVehicles h env cam db))) t
                   = fst (syncVehicles h env cam db) t @ n2"
    using Cons.IH by blast
  with n1 show ?case by (simp add: c split_beta)
qed

lemma syncAllCameras_append:
  "syncAllCameras h (xs @ ys) db =
     (fst (syncAllCameras h ys (fst (syncAllCameras h xs db))),
      snd (syncAllCameras h xs db) @ snd (syncAllCameras h ys (fst (syncAllCameras h xs db))))"
proof (induction xs arbitrary: db)
  case Nil
  then show ?case by simp
next
  case (Cons c xs)
  obtain cam env where c: "c = (cam, env)" by (cases c)
  show ?case by (simp add: c split_beta Cons.IH)
qed

lemma storeAt_later:
  assumes "j \<le> k"
  shows "\<exists>new. storeAt h cycles db k t = storeAt h cycles db j t @ new"
proof -
  have "take k cycles = take j cycles @ drop j (take k cycles)"
    using assms by (metis append_take_drop_id min.absorb1 take_take)
  then have "storeAt h cycles db k
             = fst (syncAllCameras h (drop j (take k cycles)) (storeAt h cycles db j))"
    unfolding storeAt_def by (metis syncAllCameras_append fst_conv)
  then show ?thesis using syncAllCameras_rows_grow by metis
qed

lemma Max_CaptureTime_append:
  "rows \<noteq> [] \<Longrightarrow> Max (CaptureTime ` set rows) \<le> Max (CaptureTime ` set (rows @ new))"
  by (rule Max_mono) auto

text \<open>
  Claim C10. Take any run of cycles and two of them, an earlier cycle \<open>j\<close> and a later
  cycle \<open>k\<close> of the same table, both with a watermark query that succeeds, and let the
  table hold a row at the start of cycle \<open>j\<close>. Then the watermark resolved by cycle
  \<open>k\<close> is not before the one resolved by cycle \<open>j\<close>, and the table holds a row at the
  start of cycle \<open>k\<close> too.
\<close>

theorem watermark_monotone:
  assumes "j \<le> k" "k < length cycles"
    and "tableName (fst (cycles ! j)) = tableName (fst (cycles ! k))"
    and "\<not> watermarkFails (snd (cycles ! j))" "\<not> watermarkFails (snd (cycles ! k))"
    and "storeAt h cycles db j (tableName (fst (cycles ! j))) \<noteq> []"
  shows "watermarkAt h cycles db j \<le> watermarkAt h cycles db k
         \<and> storeAt h cycles db k (tableName (fst (cycles ! k))) \<noteq> []"
proof -
  let ?t = "tableName (fst (cycles ! j))"
  obtain new where new: "storeAt h cycles db k ?t = storeAt h cycles db j ?t @ new"
    using storeAt_later [OF assms(1)] by blast
  with assms(6) have ne: "storeAt h cycles db k ?t \<noteq> []" by simp
  have wj: "watermarkAt h cycles db j = Max (CaptureTime ` set (storeAt h cycles db j ?t))"
    using assms(4,6) by (simp add: watermarkAt_def getLastSyncTime_def maxCaptureTime_Max)
  have wk: "watermarkAt h cycles db k = Max (CaptureTime ` set (storeAt h cycles db k ?t))"
    using assms(3,5) ne by (simp add: watermarkAt_def getLastSyncTime_def maxCaptureTime_Max)
  from Max_CaptureTime_append [OF assms(6), of new] new wj wk ne assms(3)
  show ?thesis by simp
qed

text \<open>
  The theorem on three cycles of one camera: the watermark is the capture time of
  \<open>a.jpg\<close> at the first cycle and that of \<open>c.jpg\<close> at the third.
\<close>

theorem watermark_monotone_witness:
  "watermarkAt utcHost [(camera1, calmCycle twoPlates), (camera1, calmCycle plateC),
       (camera1, calmCycle plateC)] recordedA 0 = 1705302930000
   \<and> watermarkAt utcHost [(camera1, calmCycle twoPlates), (camera1, calmCycle plateC),
       (camera1, calmCycle plateC)] recordedA 2 = 1705306500000
   \<and> watermarkAt utcHost [(camera1, calmCycle twoPlates), (camera1, calmCycle plateC),
       (camera1, calmCycle plateC)] recordedA 0
     \<le> watermarkAt utcHost [(camera1, calmCycle twoPlates), (camera1, calmCycle plateC),
       (camera1, calmCycle plateC)] recordedA 2"
proof -
  let ?cycles = "[(camera1, calmCycle twoPlates), (camera1, calmCycle plateC),
       (camera1, calmCycle plateC)]"
  have a: "storeAt utcHost ?cycles recordedA 0 (tableName (fst (?cycles ! 0))) \<noteq> []"
    by (simp add: storeAt_def camera1_def recordedA_def)
  have b: "\<not> watermarkFails (snd (?cycles ! 0))" "\<not> watermarkFails (snd (?cycles ! 2))"
    by (simp_all add: calmCycle_def)
  have c: "tableName (fst (?cycles ! 0)) = tableName (fst (?cycles ! 2))" by simp
  have v0: "watermarkAt utcHost ?cycles recordedA 0 = 1705302930000" by code_simp
  have v2: "watermarkAt utcHost ?cycles recordedA 2 = 1705306500000" by code_simp
  from watermark_monotone [of 0 2 ?cycles utcHost recordedA, OF _ _ c b a] v0 v2
  show ?thesis by simp
qed

section \<open>Decoding a response\<close>


lemma decodeLoop_all:
  assumes "list_all2 (\<lambda>p v. decodePlate israel legacy p = Inr v) plates vs"
  shows "decodeLoop israel legacy acc plates = (acc @ vs, None)"
  using assms
proof (induction plates arbitrary: acc vs)
  case Nil
  then show ?case by simp
next
  case (Cons p plates)
  then obtain v vs' where vs: "vs = v # vs'" "decodePlate israel legacy p = Inr v"
      "list_all2 (\<lambda>p v. decodePlate israel legacy p = Inr v) plates vs'"
    by (auto simp: list_all2_Cons1)
  from Cons.IH [OF vs(3), of "acc @ [v]"] vs(1,2) show ?case by simp
qed

lemma decodeLoop_stops:
  assumes "list_all2 (\<lambda>p v. decodePlate israel legacy p = Inr v) good vs"
    and "decodePlate israel legacy bad = Inl e"
  shows "decodeLoop israel legacy acc (good @ bad # rest) = (acc @ vs, Some e)"
  using assms
proof (induction good arbitrary: acc vs)
  case Nil
  then show ?case by simp
next
  case (Cons p good)
  then obtain v vs' where vs: "vs = v # vs'" "decodePlate israel legacy p = Inr v"
      "list_all2 (\<lambda>p v. decodePlate israel legacy p = Inr v) good vs'"
    by (auto simp: list_all2_Cons1)
  from Cons.IH [OF vs(3) Cons.prems(2), of "acc @ [v]"] vs(1,2) show ?case by simp
qed

lemma decodePlate_plateElement:
  "decodePlate israel legacy (plateElement ct pn pic co di)
   = Inr \<lparr> captureTime = decodeCaptureTime israel legacy ct, plateNumber = JString pn,
           picName = JString pic, country = JString co, direction = JString di \<rparr>"
  by (simp add: decodePlate_def plateElement_def field0_def)

lemma field0_missing:
  "map_of kvs f = None \<Longrightarrow> field0 f (JObject kvs) = Inl TypeError"
  by (simp add: field0_def)

lemma decodePlate_Inr_fields:
  assumes "decodePlate israel legacy plate = Inr v"
  shows "\<exists>s. field0 ''captureTime'' plate = Inr (JString s)
              \<and> field0 ''plateNumber'' plate = Inr (plateNumber v)
              \<and> field0 ''picName'' plate = Inr (picName v)
              \<and> field0 ''country'' plate = Inr (country v)
              \<and> field0 ''direction'' plate = Inr (direction v)
              \<and> captureTime v = decodeCaptureTime israel legacy s"
  using assms by (auto simp: decodePlate_def split: sum.splits jsval.splits)

lemma decodePlate_missing:
  assumes "f \<in> {''captureTime'', ''plateNumber'', ''picName'', ''country'', ''direction''}"
    and "map_of kvs f = None"
  shows "decodePlate israel legacy (JObject kvs) = Inl TypeError"
proof (cases "decodePlate israel legacy (JObject kvs)")
  case (Inl e)
  then show ?thesis by (cases e) simp
next
  case (Inr v)
  from decodePlate_Inr_fields [OF Inr] field0_missing [OF assms(2)] assms(1)
  show ?thesis by auto
qed

lemma platesOf_cases:
  "platesOf (JObject kvs) =
     (case map_of kvs ''Plates'' of
        None \<Rightarrow> Inr []
      | Some root \<Rightarrow>
          if \<not> truthy root then Inr []
          else (case getProp ''Plate'' root of
                  Inl e \<Rightarrow> Inl e
                | Inr plate \<Rightarrow>
                    if \<not> truthy plate then Inr []
                    else Inr (case plate of JArray ps \<Rightarrow> ps | _ \<Rightarrow> [plate])))"
  by (simp add: platesOf_def split: option.splits)


lemma fetch_parsed:
  assumes "ok status" "platesOf result = Inr plates"
  shows "fetchVehiclesFromCamera israel legacy (HttpResponse status (XmlParsed result)) fromTime cam
         = (case decodeLoop israel legacy [] plates of
              (vehicles, Some e) \<Rightarrow> (vehicles, [LogCameraError (name cam) (Thrown e)])
            | (vehicles, None) \<Rightarrow> (vehicles, [LogFound (name cam) (length vehicles)]))"
  using assms by (simp add: fetchVehiclesFromCamera_def)

text \<open>
  Claim C6. A response document without a \<open>Plates\<close> root, or whose root is empty or
  has no \<open>Plate\<close> child, yields no event and no error. A lone \<open>Plate\<close> element is
  wrapped into a sequence of one, a list of \<open>Plate\<close> elements is taken as it is: one
  element gives a sequence of length 1 and two give a sequence of length 2, in the
  order of the response, none dropped and none wrapped twice. When every element of
  that sequence decodes, the events are as many, in the same order.
\<close>

theorem platesOf_normalizes:
  "(ok status \<and> (map_of kvs ''Plates'' = None
        \<or> (\<exists>root. map_of kvs ''Plates'' = Some root
              \<and> (\<not> truthy root \<or> getProp ''Plate'' root = Inr JUndefined))) \<longrightarrow>
      fetchVehiclesFromCamera israel legacy (HttpResponse status (XmlParsed (JObject kvs)))
          fromTime cam = ([], [LogFound (name cam) 0]))
   \<and> (map_of kvs ''Plates'' = Some (JObject rs) \<and> map_of rs ''Plate'' = Some (JObject f) \<longrightarrow>
      platesOf (JObject kvs) = Inr [JObject f])
   \<and> (map_of kvs ''Plates'' = Some (JObject rs) \<and> map_of rs ''Plate'' = Some (JArray ps) \<longrightarrow>
      platesOf (JObject kvs) = Inr ps)
   \<and> platesOf (platesDocument [p]) = Inr [p]
   \<and> platesOf (platesDocument [p1, p2]) = Inr [p1, p2]
   \<and> (ok status \<and> platesOf result = Inr plates
        \<and> list_all2 (\<lambda>p v. decodePlate israel legacy p = Inr v) plates vs \<longrightarrow>
      fetchVehiclesFromCamera israel legacy (HttpResponse status (XmlParsed result)) fromTime cam
        = (vs, [LogFound (name cam) (length plates)])
      \<and> length vs = length plates)"
proof (intro conjI impI)
  assume a: "ok status \<and> (map_of kvs ''Plates'' = None
        \<or> (\<exists>root. map_of kvs ''Plates'' = Some root
              \<and> (\<not> truthy root \<or> getProp ''Plate'' root = Inr JUndefined)))"
  then have "platesOf (JObject kvs) = Inr []"
    by (auto simp: platesOf_cases)
  with a show "fetchVehiclesFromCamera israel legacy (HttpResponse status (XmlParsed (JObject kvs)))
          fromTime cam = ([], [LogFound (name cam) 0])"
    by (simp add: fetch_parsed)
next
  assume "map_of kvs ''Plates'' = Some (JObject rs) \<and> map_of rs ''Plate'' = Some (JObject f)"
  then show "platesOf (JObject kvs) = Inr [JObject f]"
    by (simp add: platesOf_cases)
next
  assume "map_of kvs ''Plates'' = Some (JObject rs) \<and> map_of rs ''Plate'' = Some (JArray ps)"
  then show "platesOf (JObject kvs) = Inr ps"
    by (simp add: platesOf_cases)
next
  show "platesOf (platesDocument [p]) = Inr [p]"
    by (simp add: platesOf_def platesDocument_def)
  show "platesOf (platesDocument [p1, p2]) = Inr [p1, p2]"
    by (simp add: platesOf_def platesDocument_def)
next
  assume a: "ok status \<and> platesOf result = Inr plates
        \<and> list_all2 (\<lambda>p v. decodePlate israel legacy p = Inr v) plates vs"
  then have len: "length vs = length plates"
    by (metis list_all2_lengthD)
  from a have "decodeLoop israel legacy [] plates = (vs, None)"
    using decodeLoop_all [of israel legacy plates vs "[]"] by simp
  with a len show "fetchVehiclesFromCamera israel legacy (HttpResponse status (XmlParsed result)) fromTime cam
        = (vs, [LogFound (name cam) (length plates)])"
    by (simp add: fetch_parsed)
  from len show "length vs = length plates" .
qed

text \<open>
  The theorem on a document with another root, on a lone detection element, and on the
  response with two detections.
\<close>

theorem platesOf_normalizes_witness:
  "fetchVehiclesFromCamera israelWinter strictEngine (HttpResponse 200 (XmlParsed otherRoot))
       1705276800000 camera1 = ([], [LogFound ''Camera1'' 0])
   \<and> platesOf (JObject [(''Plates'', JObject [(''Plate'',
         plateElement ''20240115T091530+0200'' ''1234567'' ''a.jpg'' ''ISR'' ''forward'')])])
       = Inr [plateElement ''20240115T091530+0200'' ''1234567'' ''a.jpg'' ''ISR'' ''forward'']
   \<and> map picName (fst (fetchVehiclesFromCamera israelWinter strictEngine twoPlates
         1705276800000 camera1)) = [JString ''a.jpg'', JString ''b.jpg'']"
proof -
  have a: "ok 200 \<and> map_of [(''ResponseStatus'', JObject [(''statusString'', JArray [JString ''OK''])])]
             ''Plates'' = None"
    by (simp add: ok_def)
  have b: "plateElement ''20240115T091530+0200'' ''1234567'' ''a.jpg'' ''ISR'' ''forward''
           = JObject [(''captureTime'', JArray [JString ''20240115T091530+0200'']),
                      (''plateNumber'', JArray [JString ''1234567'']),
                      (''picName'', JArray [JString ''a.jpg'']),
                      (''country'', JArray [JString ''ISR'']),
                      (''direction'', JArray [JString ''forward''])]"
    by (simp add: plateElement_def)
  have c: "map picName (fst (fetchVehiclesFromCamera israelWinter strictEngine twoPlates
         1705276800000 camera1)) = [JString ''a.jpg'', JString ''b.jpg'']"
    by code_simp
  note t = platesOf_normalizes [where status = 200
      and kvs = "[(''ResponseStatus'', JObject [(''statusString'', JArray [JString ''OK''])])]"
      and israel = israelWinter and legacy = strictEngine and fromTime = 1705276800000
      and cam = camera1]
  note t2 = platesOf_normalizes [where
      kvs = "[(''Plates'', JObject [(''Plate'',
         plateElement ''20240115T091530+0200'' ''1234567'' ''a.jpg'' ''ISR'' ''forward'')])]"
      and rs = "[(''Plate'',
         plateElement ''20240115T091530+0200'' ''1234567'' ''a.jpg'' ''ISR'' ''forward'')]"
      and f = "[(''captureTime'', JArray [JString ''20240115T091530+0200'']),
                      (''plateNumber'', JArray [JString ''1234567'']),
                      (''picName'', JArray [JString ''a.jpg'']),
                      (''country'', JArray [JString ''ISR'']),
                      (''direction'', JArray [JString ''forward''])]"]
  from t a have 1: "fetchVehiclesFromCamera israelWinter strictEngine (HttpResponse 200 (XmlParsed otherRoot))
       1705276800000 camera1 = ([], [LogFound ''Camera1'' 0])"
    by (simp add: otherRoot_def camera1_def)
  from t2 b have 2: "platesOf (JObject [(''Plates'', JObject [(''Plate'',
         plateElement ''20240115T091530+0200'' ''1234567'' ''a.jpg'' ''ISR'' ''forward'')])])
       = Inr [plateElement ''20240115T091530+0200'' ''1234567'' ''a.jpg'' ''ISR'' ''forward'']"
    by simp
  from 1 2 c show ?thesis by simp
qed

text \<open>
  Claim C8. When the status of the response is not in 200 to 299, the fetch ends with
  an error that carries the status and with no event, whatever the body is; the cycle
  inserts nothing, leaves the store as it was and runs to its end.
\<close>

theorem non_success_status:
  assumes "\<not> ok status" and "response env = HttpResponse status body"
  shows "fetchVehiclesFromCamera israel legacy (HttpResponse status body) fromTime cam
           = ([], [LogCameraError (name cam) (HttpError status)])
         \<and> fst (syncVehicles h env cam db) = db
         \<and> snd (syncVehicles h env cam db)
           = snd (getLastSyncTime (hZone h) (clockNow env) (watermarkFails env) db (tableName cam))
             @ [LogCameraError (name cam) (HttpError status), LogNoNew (name cam),
                LogCompleted (name cam)]"
  using assms by (simp add: fetchVehiclesFromCamera_def syncVehicles_def split_beta)

text \<open>The theorem on a response with status 503 and a well-formed body.\<close>

theorem non_success_status_witness:
  "\<not> ok 503
   \<and> syncVehicles utcHost (calmCycle serverError) camera1 recordedA
     = (recordedA, [LogCameraError ''Camera1'' (HttpError 503), LogNoNew ''Camera1'',
                    LogCompleted ''Camera1''])"
proof -
  have a: "\<not> ok 503" by (simp add: ok_def)
  have b: "response (calmCycle serverError) = HttpResponse 503 (XmlParsed (platesDocument
      [plateElement ''20240115T091530+0200'' ''1234567'' ''a.jpg'' ''ISR'' ''forward'']))"
    by (simp add: calmCycle_def serverError_def)
  have c: "snd (getLastSyncTime (hZone utcHost) (clockNow (calmCycle serverError))
             (watermarkFails (calmCycle serverError)) recordedA (tableName camera1)) = []"
    by (simp add: getLastSyncTime_def calmCycle_def recordedA_def camera1_def maxCaptureTime_def)
  from non_success_status [OF a b, of israelWinter strictEngine 0 camera1 utcHost recordedA] c
  show ?thesis using a by (simp add: prod_eq_iff camera1_def)
qed

text \<open>
  Claim C9. Let the elements before the \<open>k\<close>-th decode, and let the decoding of the
  \<open>k\<close>-th throw, as it does when one of the five children is absent. Then
  \<open>fetchVehiclesFromCamera\<close> writes the error and returns exactly the events of the
  elements before it; the cycle hands these to \<open>insertVehiclesToSQL\<close>, and the \<open>k\<close>-th
  element and all after it take no part in the cycle.
\<close>

theorem decode_failure_keeps_prefix:
  assumes "response env = HttpResponse status (XmlParsed result)" and "ok status"
    and "platesOf result = Inr (good @ bad # rest)"
    and "list_all2 (\<lambda>p v. decodePlate (hIsrael h) (hLegacy h) p = Inr v) good vs"
    and "decodePlate (hIsrael h) (hLegacy h) bad = Inl e"
  shows "fetchVehiclesFromCamera (hIsrael h) (hLegacy h) (response env) fromTime cam
           = (vs, [LogCameraError (name cam) (Thrown e)])
         \<and> fst (syncVehicles h env cam db)
           = (if vs = [] then db
              else db(tableName cam :=
                     pRows (insertVehiclesToSQL (steps env) vs (db (tableName cam)) (name cam))))
         \<and> (f \<in> {''captureTime'', ''plateNumber'', ''picName'', ''country'', ''direction''}
              \<and> map_of kvs f = None \<longrightarrow>
            decodePlate (hIsrael h) (hLegacy h) (JObject kvs) = Inl TypeError)"
proof -
  have loop: "decodeLoop (hIsrael h) (hLegacy h) [] (good @ bad # rest) = (vs, Some e)"
    using decodeLoop_stops [OF assms(4,5), of "[]" rest] by simp
  have fetch: "fetchVehiclesFromCamera (hIsrael h) (hLegacy h) (response env) t cam
           = (vs, [LogCameraError (name cam) (Thrown e)])" for t
    using assms(1,2,3) loop by (simp add: fetch_parsed)
  have sync: "fst (syncVehicles h env cam db)
           = (if vs = [] then db
              else db(tableName cam :=
                     pRows (insertVehiclesToSQL (steps env) vs (db (tableName cam)) (name cam))))"
    by (simp add: syncVehicles_def fetch split_beta Let_def)
  from fetch sync decodePlate_missing show ?thesis by blast
qed

text \<open>
  The theorem on three detections of which the second has no picture name: the first
  is returned and persisted, the third is not.
\<close>

theorem decode_failure_keeps_prefix_witness:
  "fetchVehiclesFromCamera israelWinter strictEngine gapSecond 1705276800000 camera1
     = ([vehicleA], [LogCameraError ''Camera1'' (Thrown TypeError)])
   \<and> map PicName (fst (syncVehicles utcHost (calmCycle gapSecond) camera1 emptyStore)
        ''VehicleDetection'') = [JString ''a.jpg'']"
proof -
  let ?a = "plateElement ''20240115T091530+0200'' ''1234567'' ''a.jpg'' ''ISR'' ''forward''"
  let ?b = "JObject [(''captureTime'', JArray [JString ''20240115T091631+0200'']),
                (''plateNumber'', JArray [JString ''7654321'']),
                (''country'', JArray [JString ''ISR'']),
                (''direction'', JArray [JString ''reverse''])]"
  let ?c = "plateElement ''20240115T101500+0200'' ''5550001'' ''c.jpg'' ''ISR'' ''forward''"
  have r: "response (calmCycle gapSecond)
           = HttpResponse 200 (XmlParsed (platesDocument [?a, ?b, ?c]))"
    by (simp add: calmCycle_def gapSecond_def)
  have o: "ok 200" by (simp add: ok_def)
  have p: "platesOf (platesDocument [?a, ?b, ?c]) = Inr ([?a] @ ?b # [?c])"
    by (simp add: platesOf_def platesDocument_def)
  have g: "list_all2 (\<lambda>p v. decodePlate (hIsrael utcHost) (hLegacy utcHost) p = Inr v)
             [?a] [vehicleA]"
    by (simp add: utcHost_def vehicleA_def decodePlate_plateElement decodeCaptureTime_def
        momentTz_def captureTimeText_def substring_def isoLocal_def isDigit_def digitsToNat_def
        validWallclock_def daysInMonth_def israelWinter_def fixedOffsetClock_def utcMillis_def
        daysFromCivil_def)
  have b: "decodePlate (hIsrael utcHost) (hLegacy utcHost) ?b = Inl TypeError"
    by (simp add: decodePlate_def field0_def)
  have m: "map PicName (pRows (insertVehiclesToSQL calm [vehicleA]
             (emptyStore ''VehicleDetection'') ''Camera1'')) = [JString ''a.jpg'']"
    by code_simp
  from decode_failure_keeps_prefix [OF r o p g b, of 1705276800000 camera1 emptyStore] r m
  show ?thesis
    by (simp add: utcHost_def camera1_def calmCycle_def)
qed

section \<open>One bad element in a batch\<close>

lemma PicName_persistedRows:
  "PicName ` set (persistedRows env i vs) \<subseteq> picName ` set vs"
  by (induction vs arbitrary: i) (auto split: option.splits)

lemma persistedRows_names:
  "map PicName (persistedRows env i vs) = map picName (filter (\<lambda>v. captureTime v \<noteq> None) vs)"
  by (induction vs arbitrary: i) (auto split: option.splits)

text \<open>
  The insert loop on a store that answers, for events with distinct picture names that
  are new to the table: every event with a date is inserted, in the order of the
  batch, and every event with the Invalid Date is written to the console and left out.
\<close>

lemma insertLoop_calm:
  assumes "\<forall>j<length vs. \<not> checkFails (env (i + j)) \<and> \<not> insertFails (env (i + j))"
    and "distinct (map picName vs)"
    and "\<forall>v\<in>set vs. picName v \<noteq> JUndefined \<and> picName v \<notin> PicName ` set (pRows p)"
  shows "insertLoop cam env i vs p
         = p\<lparr> pRows := pRows p @ persistedRows env i vs,
               pInserted := pInserted p + length (persistedRows env i vs),
               pLog := pLog p @ persistedLog cam vs \<rparr>"
  using assms
proof (induction vs arbitrary: i p)
  case Nil
  then show ?case by (simp add: persistedLog_def)
next
  case (Cons v vs)
  let ?p = "insertVehicle cam (env i) v p"
  have calm0: "\<not> checkFails (env i)" "\<not> insertFails (env i)"
    using Cons.prems(1) by force+
  have rest: "\<forall>j<length vs. \<not> checkFails (env (Suc i + j)) \<and> \<not> insertFails (env (Suc i + j))"
    using Cons.prems(1) by force
  have new: "selectByPicName (pRows p) (picName v) = []"
    using Cons.prems(3) by (simp add: selectByPicName_empty)
  have step: "?p = p\<lparr> pRows := pRows p @ persistedRows env i [v],
               pInserted := pInserted p + length (persistedRows env i [v]),
               pLog := pLog p @ persistedLog cam [v] \<rparr>"
    using calm0 new by (simp add: insertVehicle_def persistedLog_def split: option.splits)
  have sub: "PicName ` set (pRows ?p) \<subseteq> PicName ` set (pRows p) \<union> {picName v}"
    using PicName_persistedRows [of env i "[v]"] by (auto simp: step)
  have fresh: "\<forall>u\<in>set vs. picName u \<noteq> JUndefined \<and> picName u \<notin> PicName ` set (pRows ?p)"
  proof (intro ballI conjI)
    fix u assume u: "u \<in> set vs"
    then show "picName u \<noteq> JUndefined" using Cons.prems(3) by simp
    have "picName v \<notin> picName ` set vs" using Cons.prems(2) by simp
    then have "picName u \<noteq> picName v" using u by (metis imageI)
    moreover have "picName u \<notin> PicName ` set (pRows p)" using u Cons.prems(3) by simp
    ultimately show "picName u \<notin> PicName ` set (pRows ?p)" using sub by blast
  qed
  have d: "distinct (map picName vs)" using Cons.prems(2) by simp
  have "insertLoop cam env (Suc i) vs ?p
         = ?p\<lparr> pRows := pRows ?p @ persistedRows env (Suc i) vs,
               pInserted := pInserted ?p + length (persistedRows env (Suc i) vs),
               pLog := pLog ?p @ persistedLog cam vs \<rparr>"
    by (rule Cons.IH [OF rest d fresh])
  then show ?case
    by (simp add: step persistedLog_def)
qed

lemma insertVehiclesToSQL_calm:
  assumes "\<forall>i<length vs. \<not> checkFails (env i) \<and> \<not> insertFails (env i)"
    and "distinct (map picName vs)"
    and "\<forall>v\<in>set vs. picName v \<noteq> JUndefined \<and> picName v \<notin> PicName ` set rows"
    and "vs \<noteq> []"
  shows "insertVehiclesToSQL env vs rows cam
         = \<lparr> pRows = rows @ persistedRows env 0 vs,
             pInserted = length (persistedRows env 0 vs),
             pLog = persistedLog cam vs @ [LogSaved cam (length (persistedRows env 0 vs))] \<rparr>"
  using insertLoop_calm [of vs env 0 "\<lparr> pRows = rows, pInserted = 0, pLog = [] \<rparr>" cam] assms
  by (simp add: insertVehiclesToSQL_def Let_def)

text \<open>A batch of elements that each have the five children decodes as a whole.\<close>

lemma plateElements_decode:
  assumes "\<forall>p\<in>set ps. \<exists>ct pn pic co di. p = plateElement ct pn pic co di"
  shows "\<exists>us. list_all2 (\<lambda>p v. decodePlate israel legacy p = Inr v) ps us"
  using assms
proof (induction ps)
  case Nil
  then show ?case by simp
next
  case (Cons p ps)
  then obtain us where us: "list_all2 (\<lambda>p v. decodePlate israel legacy p = Inr v) ps us"
    by auto
  from Cons.prems obtain v where "decodePlate israel legacy p = Inr v"
    by (auto simp: decodePlate_plateElement)
  with us have "list_all2 (\<lambda>p v. decodePlate israel legacy p = Inr v) (p # ps) (v # us)"
    by simp
  then show ?case by blast
qed

text \<open>
  Claim C5, as amended. A batch in which every element has its five children is
  decoded whole, whatever the texts of the capture times are. Let the store answer and
  let the picture names of the batch be distinct and new to the table. Then exactly
  the events whose capture time is the Invalid Date are left out, each at its own
  insert and with one line on the console, and all other events of the batch are
  persisted, in the order of the batch: of three events of which the second has the
  Invalid Date, the first and the third are persisted. An event whose malformed text
  the engine still reads as a date is persisted with that date. An element that lacks
  a child is not passed over: the decoding of the batch ends there, with the events of
  the elements before it.
\<close>

theorem malformed_timestamp_skipped:
  assumes "response env = HttpResponse status (XmlParsed result)" and "ok status"
    and "platesOf result = Inr plates" and "plates \<noteq> []"
    and "list_all2 (\<lambda>p v. decodePlate (hIsrael h) (hLegacy h) p = Inr v) plates vs"
    and "\<forall>i<length vs. \<not> checkFails (steps env i) \<and> \<not> insertFails (steps env i)"
    and "distinct (map picName vs)"
    and "\<forall>v\<in>set vs. picName v \<noteq> JUndefined
                      \<and> picName v \<notin> PicName ` set (db (tableName cam))"
  shows "fst (syncVehicles h env cam db) (tableName cam)
           = db (tableName cam) @ persistedRows (steps env) 0 vs
         \<and> snd (syncVehicles h env cam db)
           = snd (getLastSyncTime (hZone h) (clockNow env) (watermarkFails env) db (tableName cam))
             @ [LogFound (name cam) (length plates)]
             @ persistedLog (name cam) vs
             @ [LogSaved (name cam) (length (persistedRows (steps env) 0 vs)),
                LogCompleted (name cam)]
         \<and> map PicName (persistedRows (steps env) 0 vs)
           = map picName (filter (\<lambda>v. captureTime v \<noteq> None) vs)
         \<and> (vs = [v1, v2, v3] \<and> captureTime v1 = Some t1
                \<and> captureTime v2 = None \<and> captureTime v3 = Some t3 \<longrightarrow>
            map PicName (fst (syncVehicles h env cam db) (tableName cam))
              = map PicName (db (tableName cam)) @ [picName v1, picName v3])
         \<and> decodePlate israel legacy (plateElement ct pn pic co di)
           = Inr \<lparr> captureTime = decodeCaptureTime israel legacy ct, plateNumber = JString pn,
                   picName = JString pic, country = JString co, direction = JString di \<rparr>
         \<and> ((\<forall>p\<in>set ps. \<exists>ct pn pic co di. p = plateElement ct pn pic co di) \<longrightarrow>
            (\<exists>us. list_all2 (\<lambda>p v. decodePlate israel legacy p = Inr v) ps us))
         \<and> (list_all2 (\<lambda>p v. decodePlate israel legacy p = Inr v) good gs
              \<and> decodePlate israel legacy bad = Inl e \<longrightarrow>
            decodeLoop israel legacy [] (good @ bad # rest) = (gs, Some e))"
proof -
  have len: "length vs = length plates" using assms(5) by (metis list_all2_lengthD)
  with assms(4) have ne: "vs \<noteq> []" by auto
  have loop: "decodeLoop (hIsrael h) (hLegacy h) [] plates = (vs, None)"
    using decodeLoop_all [OF assms(5), of "[]"] by simp
  have fetch: "fetchVehiclesFromCamera (hIsrael h) (hLegacy h) (response env) t cam
           = (vs, [LogFound (name cam) (length plates)])" for t
    using assms(1,2,3) loop len by (simp add: fetch_parsed)
  note ins = insertVehiclesToSQL_calm [OF assms(6,7,8) ne, of "name cam"]
  have sync: "syncVehicles h env cam db
     = (db(tableName cam := pRows (insertVehiclesToSQL (steps env) vs
                                     (db (tableName cam)) (name cam))),
        snd (getLastSyncTime (hZone h) (clockNow env) (watermarkFails env) db (tableName cam))
        @ [LogFound (name cam) (length plates)]
        @ pLog (insertVehiclesToSQL (steps env) vs (db (tableName cam)) (name cam))
        @ [LogCompleted (name cam)])"
    using ne by (simp add: syncVehicles_def fetch split_beta Let_def)
  have rows: "fst (syncVehicles h env cam db) (tableName cam)
           = db (tableName cam) @ persistedRows (steps env) 0 vs"
    by (simp add: sync ins)
  have three: "vs = [v1, v2, v3] \<and> captureTime v1 = Some t1
                \<and> captureTime v2 = None \<and> captureTime v3 = Some t3 \<longrightarrow>
            map PicName (fst (syncVehicles h env cam db) (tableName cam))
              = map PicName (db (tableName cam)) @ [picName v1, picName v3]"
    unfolding rows by auto
  have logs: "snd (syncVehicles h env cam db)
           = snd (getLastSyncTime (hZone h) (clockNow env) (watermarkFails env) db (tableName cam))
             @ [LogFound (name cam) (length plates)]
             @ persistedLog (name cam) vs
             @ [LogSaved (name cam) (length (persistedRows (steps env) 0 vs)),
                LogCompleted (name cam)]"
    by (simp add: sync ins)
  have whole: "(\<forall>p\<in>set ps. \<exists>ct pn pic co di. p = plateElement ct pn pic co di) \<longrightarrow>
            (\<exists>us. list_all2 (\<lambda>p v. decodePlate israel legacy p = Inr v) ps us)"
    using plateElements_decode by blast
  have stops: "list_all2 (\<lambda>p v. decodePlate israel legacy p = Inr v) good gs
              \<and> decodePlate israel legacy bad = Inl e \<longrightarrow>
            decodeLoop israel legacy [] (good @ bad # rest) = (gs, Some e)"
    using decodeLoop_stops [of israel legacy good gs bad e "[]" rest] by simp
  from rows logs three whole stops
       persistedRows_names [of "steps env" 0 vs]
       decodePlate_plateElement [of israel legacy ct pn pic co di]
  show ?thesis by blast
qed

text \<open>
  The theorem on three detections of which the second names a thirteenth month: two
  rows are persisted and one insert error is written.
\<close>

theorem malformed_timestamp_skipped_witness:
  "decodeCaptureTime israelWinter strictEngine ''20241315T091631+0200'' = None
   \<and> map PicName (fst (syncVehicles utcHost (calmCycle badTimeSecond) camera1 emptyStore)
        ''VehicleDetection'') = [JString ''a.jpg'', JString ''c.jpg'']
   \<and> snd (syncVehicles utcHost (calmCycle badTimeSecond) camera1 emptyStore)
     = [LogFound ''Camera1'' 3,
        LogInserted ''Camera1'' (JString ''1234567'') (JString ''forward''),
        LogInsertError ''Camera1'' (JString ''7654321''),
        LogInserted ''Camera1'' (JString ''5550001'') (JString ''forward''),
        LogSaved ''Camera1'' 2, LogCompleted ''Camera1'']"
proof -
  let ?a = "plateElement ''20240115T091530+0200'' ''1234567'' ''a.jpg'' ''ISR'' ''forward''"
  let ?b = "plateElement ''20241315T091631+0200'' ''7654321'' ''b.jpg'' ''ISR'' ''reverse''"
  let ?c = "plateElement ''20240115T101500+0200'' ''5550001'' ''c.jpg'' ''ISR'' ''forward''"
  have r: "response (calmCycle badTimeSecond)
           = HttpResponse 200 (XmlParsed (platesDocument [?a, ?b, ?c]))"
    by (simp add: calmCycle_def badTimeSecond_def)
  have o: "ok 200" by (simp add: ok_def)
  have p: "platesOf (platesDocument [?a, ?b, ?c]) = Inr [?a, ?b, ?c]"
    by (simp add: platesOf_def platesDocument_def)
  have n: "[?a, ?b, ?c] \<noteq> []" by simp
  have t1: "decodeCaptureTime (hIsrael utcHost) (hLegacy utcHost) ''20240115T091530+0200''
            = Some 1705302930000"
    by (simp add: utcHost_def decodeCaptureTime_def
        momentTz_def captureTimeText_def substring_def isoLocal_def isDigit_def digitsToNat_def
        validWallclock_def daysInMonth_def israelWinter_def fixedOffsetClock_def utcMillis_def
        daysFromCivil_def)
  have t2: "decodeCaptureTime (hIsrael utcHost) (hLegacy utcHost) ''20241315T091631+0200'' = None"
    by (simp add: utcHost_def decodeCaptureTime_def
        momentTz_def captureTimeText_def substring_def isoLocal_def isDigit_def digitsToNat_def
        validWallclock_def daysInMonth_def)
  have t3: "decodeCaptureTime (hIsrael utcHost) (hLegacy utcHost) ''20240115T101500+0200''
            = Some 1705306500000"
    by (simp add: utcHost_def decodeCaptureTime_def
        momentTz_def captureTimeText_def substring_def isoLocal_def isDigit_def digitsToNat_def
        validWallclock_def daysInMonth_def israelWinter_def fixedOffsetClock_def utcMillis_def
        daysFromCivil_def)
  have g: "list_all2 (\<lambda>p v. decodePlate (hIsrael utcHost) (hLegacy utcHost) p = Inr v)
             [?a, ?b, ?c] [vehicleA, vehicleBad, vehicleC]"
    by (simp add: decodePlate_plateElement t1 t2 t3 vehicleA_def vehicleBad_def vehicleC_def)
  have c: "\<forall>i<length [vehicleA, vehicleBad, vehicleC].
             \<not> checkFails (steps (calmCycle badTimeSecond) i)
             \<and> \<not> insertFails (steps (calmCycle badTimeSecond) i)"
    by (simp add: calmCycle_def calm_def)
  have d: "distinct (map picName [vehicleA, vehicleBad, vehicleC])"
    by (simp add: vehicleA_def vehicleBad_def vehicleC_def)
  have f: "\<forall>v\<in>set [vehicleA, vehicleBad, vehicleC]. picName v \<noteq> JUndefined
             \<and> picName v \<notin> PicName ` set (emptyStore (tableName camera1))"
    by (simp add: vehicleA_def vehicleBad_def vehicleC_def emptyStore_def)
  have w: "snd (getLastSyncTime (hZone utcHost) (clockNow (calmCycle badTimeSecond))
             (watermarkFails (calmCycle badTimeSecond)) emptyStore (tableName camera1)) = []"
    by (simp add: getLastSyncTime_def calmCycle_def emptyStore_def maxCaptureTime_def)
  have e: "map PicName (persistedRows (steps (calmCycle badTimeSecond)) 0
             [vehicleA, vehicleBad, vehicleC]) = [JString ''a.jpg'', JString ''c.jpg'']"
      "persistedLog ''Camera1'' [vehicleA, vehicleBad, vehicleC]
       = [LogInserted ''Camera1'' (JString ''1234567'') (JString ''forward''),
          LogInsertError ''Camera1'' (JString ''7654321''),
          LogInserted ''Camera1'' (JString ''5550001'') (JString ''forward'')]"
      "length (persistedRows (steps (calmCycle badTimeSecond)) 0
             [vehicleA, vehicleBad, vehicleC]) = 2"
    by (simp_all add: persistedLog_def vehicleA_def vehicleBad_def vehicleC_def)
  from malformed_timestamp_skipped
         [where h = utcHost and env = "calmCycle badTimeSecond" and cam = camera1
            and db = emptyStore, OF r o p n g c d f] w t2 e
  show ?thesis by (simp add: camera1_def utcHost_def emptyStore_def)
qed

text \<open>
  Claim C5 as it was written fails in two ways. Of three detections of which the
  second has no capture time, only the first is persisted: the third, which is well
  formed, is dropped with the second. And of three detections of which the second has
  a capture time that is no ISO date, all three are persisted on an engine that reads
  the text as a date: the second is not skipped.
\<close>

theorem malformed_element_counterexample:
  "map PicName (fst (syncVehicles utcHost (calmCycle noTimeSecond) camera1 emptyStore)
        ''VehicleDetection'') = [JString ''a.jpg'']
   \<and> snd (syncVehicles utcHost (calmCycle noTimeSecond) camera1 emptyStore)
     = [LogCameraError ''Camera1'' (Thrown TypeError),
        LogInserted ''Camera1'' (JString ''1234567'') (JString ''forward''),
        LogSaved ''Camera1'' 1, LogCompleted ''Camera1'']
   \<and> isoLocal (captureTimeText ''2024011UT091530+0200'') = None
   \<and> map PicName (fst (syncVehicles lenientHost (calmCycle oddTimeSecond) camera1 emptyStore)
        ''VehicleDetection'') = [JString ''a.jpg'', JString ''b.jpg'', JString ''c.jpg'']"
  by code_simp

section \<open>One camera after the other\<close>

lemma fetch_failed:
  assumes "resp = NoResponse \<or> (\<exists>status body. resp = HttpResponse status body \<and> \<not> ok status)"
  shows "fst (fetchVehiclesFromCamera israel legacy resp fromTime cam) = []"
  using assms by (auto simp: fetchVehiclesFromCamera_def)

text \<open>
  Claim C7. \<open>syncAllCameras\<close> runs the cycles one after the other: a pass over two
  lists of cameras is the pass over the first followed by the pass over the second,
  from the store the first left. A camera that does not answer, or answers with a
  status outside 200 to 299, leaves the store as it was, so the cameras after it run
  from the store, and write the console lines with the counts, that they would have
  without it.
\<close>

theorem later_cameras_unaffected:
  assumes "response env = NoResponse
           \<or> (\<exists>status body. response env = HttpResponse status body \<and> \<not> ok status)"
  shows "fst (syncVehicles h env cam db) = db
         \<and> syncAllCameras h (before @ (cam, env) # after) db
           = (let db1 = fst (syncAllCameras h before db)
              in (fst (syncAllCameras h after db1),
                  snd (syncAllCameras h before db) @ snd (syncVehicles h env cam db1)
                  @ snd (syncAllCameras h after db1)))
         \<and> syncAllCameras h (xs @ ys) db
           = (fst (syncAllCameras h ys (fst (syncAllCameras h xs db))),
              snd (syncAllCameras h xs db)
              @ snd (syncAllCameras h ys (fst (syncAllCameras h xs db))))
         \<and> (response env = NoResponse \<longrightarrow>
            snd (syncVehicles h env cam db)
            = snd (getLastSyncTime (hZone h) (clockNow env) (watermarkFails env) db (tableName cam))
              @ [LogCameraError (name cam) RequestFailed, LogNoNew (name cam),
                 LogCompleted (name cam)])"
proof -
  have same: "fst (syncVehicles h env cam d) = d" for d
    using fetch_failed [OF assms] by (simp add: syncVehicles_def split_beta)
  have one: "syncAllCameras h ((cam, env) # after) d
             = (fst (syncAllCameras h after d),
                snd (syncVehicles h env cam d) @ snd (syncAllCameras h after d))" for d
    by (simp add: split_beta same)
  have run: "syncAllCameras h (before @ (cam, env) # after) db
           = (let db1 = fst (syncAllCameras h before db)
              in (fst (syncAllCameras h after db1),
                  snd (syncAllCameras h before db) @ snd (syncVehicles h env cam db1)
                  @ snd (syncAllCameras h after db1)))"
    by (simp add: syncAllCameras_append [of h before "(cam, env) # after"] one Let_def
        del: syncAllCameras.simps)
  have lost: "response env = NoResponse \<longrightarrow>
            snd (syncVehicles h env cam db)
            = snd (getLastSyncTime (hZone h) (clockNow env) (watermarkFails env) db (tableName cam))
              @ [LogCameraError (name cam) RequestFailed, LogNoNew (name cam),
                 LogCompleted (name cam)]"
    by (simp add: syncVehicles_def fetchVehiclesFromCamera_def split_beta)
  from same run lost syncAllCameras_append [of h xs ys db] show ?thesis by simp
qed

text \<open>
  The theorem on two cameras of which the first does not answer: the second persists
  its two events in its own table and reports 2.
\<close>

theorem later_cameras_unaffected_witness:
  "response (calmCycle NoResponse) = NoResponse
   \<and> map PicName (fst (syncAllCameras utcHost
        [(camera1, calmCycle NoResponse), (camera2, calmCycle twoPlates)] emptyStore)
        ''VehicleDetection2'') = [JString ''a.jpg'', JString ''b.jpg'']
   \<and> fst (syncAllCameras utcHost
        [(camera1, calmCycle NoResponse), (camera2, calmCycle twoPlates)] emptyStore)
        ''VehicleDetection'' = []
   \<and> snd (syncAllCameras utcHost
        [(camera1, calmCycle NoResponse), (camera2, calmCycle twoPlates)] emptyStore)
     = [LogCameraError ''Camera1'' RequestFailed, LogNoNew ''Camera1'', LogCompleted ''Camera1'',
        LogFound ''Camera2'' 2,
        LogInserted ''Camera2'' (JString ''1234567'') (JString ''forward''),
        LogInserted ''Camera2'' (JString ''7654321'') (JString ''reverse''),
        LogSaved ''Camera2'' 2, LogCompleted ''Camera2'']
   \<and> syncAllCameras utcHost [(camera2, calmCycle twoPlates)] emptyStore
     = (fst (syncAllCameras utcHost
          [(camera1, calmCycle NoResponse), (camera2, calmCycle twoPlates)] emptyStore),
        [LogFound ''Camera2'' 2,
         LogInserted ''Camera2'' (JString ''1234567'') (JString ''forward''),
         LogInserted ''Camera2'' (JString ''7654321'') (JString ''reverse''),
         LogSaved ''Camera2'' 2, LogCompleted ''Camera2''])"
proof -
  have r: "response (calmCycle NoResponse) = NoResponse"
    by (simp add: calmCycle_def)
  have l1: "snd (syncVehicles utcHost (calmCycle NoResponse) camera1 emptyStore)
            = [LogCameraError ''Camera1'' RequestFailed, LogNoNew ''Camera1'',
               LogCompleted ''Camera1'']"
    by code_simp
  have l2: "snd (syncAllCameras utcHost [(camera2, calmCycle twoPlates)] emptyStore)
     = [LogFound ''Camera2'' 2,
        LogInserted ''Camera2'' (JString ''1234567'') (JString ''forward''),
        LogInserted ''Camera2'' (JString ''7654321'') (JString ''reverse''),
        LogSaved ''Camera2'' 2, LogCompleted ''Camera2'']"
    by code_simp
  have t2: "map PicName (fst (syncAllCameras utcHost [(camera2, calmCycle twoPlates)] emptyStore)
        ''VehicleDetection2'') = [JString ''a.jpg'', JString ''b.jpg'']"
    by code_simp
  have t1: "fst (syncAllCameras utcHost [(camera2, calmCycle twoPlates)] emptyStore)
        ''VehicleDetection'' = []"
    by code_simp
  from later_cameras_unaffected
         [where env = "calmCycle NoResponse" and h = utcHost and cam = camera1
            and db = emptyStore and before = "[]"
            and after = "[(camera2, calmCycle twoPlates)]"]
       r l1 l2 t1 t2
  show ?thesis by (simp add: prod_eq_iff)
qed

end
